theory Spec2Isabelle
  imports Main "HOL-Library.Word" "HOL-Library.Sublist"
begin

section \<open>JavaScript strings\<close>

text \<open>
  A JavaScript string is a sequence of UTF-16 code units. The status texts of the
  launcher are Russian, so the model keeps the code units themselves:
  \<open>startsWith\<close>, \<open>includes\<close>, \<open>endsWith\<close> and \<open>===\<close> all compare code units.
\<close>

type_synonym js_string = "16 word list"

fun startsWith :: "'a list \<Rightarrow> 'a list \<Rightarrow> bool" where
  "startsWith s [] = True"
| "startsWith [] (p # ps) = False"
| "startsWith (c # cs) (p # ps) = (c = p \<and> startsWith cs ps)"

fun includes_str :: "'a list \<Rightarrow> 'a list \<Rightarrow> bool" where
  "includes_str [] p = startsWith [] p"
| "includes_str (c # cs) p = (startsWith (c # cs) p \<or> includes_str cs p)"

definition endsWith :: "'a list \<Rightarrow> 'a list \<Rightarrow> bool" where
  "endsWith s p = startsWith (rev s) (rev p)"

text \<open>
  \<open>String.prototype.replace\<close> with a string pattern replaces the first occurrence
  only, and returns the string unchanged when there is none.
\<close>

fun replace_first :: "'a list \<Rightarrow> 'a list \<Rightarrow> 'a list \<Rightarrow> 'a list" where
  "replace_first [] p r = (if p = [] then r else [])"
| "replace_first (c # cs) p r =
     (if startsWith (c # cs) p then r @ drop (length p) (c # cs)
      else c # replace_first cs p r)"

text \<open>
  \<open>toLowerCase\<close> on one code unit: Basic Latin \<open>A-Z\<close>, the Cyrillic capitals
  \<open>U+0410..U+042F\<close> and \<open>U+0400..U+040F\<close>. Every other code unit is left as it is
  in this model; no code point outside \<open>J\<close>, \<open>A\<close>, \<open>V\<close> has \<open>j\<close>, \<open>a\<close> or \<open>v\<close>
  in its lower-case mapping, so the test for \<open>java\<close> below does not depend on the rest
  of the Unicode tables.
\<close>

definition toLowerCase_unit :: "16 word \<Rightarrow> 16 word" where
  "toLowerCase_unit c =
     (if 0x41 \<le> c \<and> c \<le> 0x5A then c + 0x20
      else if 0x410 \<le> c \<and> c \<le> 0x42F then c + 0x20
      else if 0x400 \<le> c \<and> c \<le> 0x40F then c + 0x50
      else c)"

definition toLowerCase :: "js_string \<Rightarrow> js_string" where
  "toLowerCase s = map toLowerCase_unit s"

section \<open>The status-text effect of \<open>page.tsx\<close>\<close>

text \<open>The string literals of the effect, as code units.\<close>

definition str_Oshibka_colon :: js_string where
  \<comment> \<open>"Oshibka:" in Cyrillic, the Russian for "Error:"\<close>
  "str_Oshibka_colon = [0x41E, 0x448, 0x438, 0x431, 0x43A, 0x430, 0x3A]"

definition str_Error_colon :: js_string where
  \<comment> \<open>"Error:"\<close>
  "str_Error_colon = [0x45, 0x72, 0x72, 0x6F, 0x72, 0x3A]"

definition str_trebuetsya_Java :: js_string where
  \<comment> \<open>"trebuetsya Java" in Cyrillic: "Java required"\<close>
  "str_trebuetsya_Java =
     [0x442, 0x440, 0x435, 0x431, 0x443, 0x435, 0x442, 0x441, 0x44F, 0x20, 0x4A, 0x61, 0x76, 0x61]"

definition str_ne_naidena :: js_string where
  \<comment> \<open>"ne naidena": "not found"\<close>
  "str_ne_naidena = [0x43D, 0x435, 0x20, 0x43D, 0x430, 0x439, 0x434, 0x435, 0x43D, 0x430]"

definition str_ne_udalos :: js_string where
  \<comment> \<open>"ne udalos": "failed to"\<close>
  "str_ne_udalos = [0x43D, 0x435, 0x20, 0x443, 0x434, 0x430, 0x43B, 0x43E, 0x441, 0x44C]"

definition str_Obnaruzheny_izmeneniya :: js_string where
  \<comment> \<open>"Obnaruzheny izmeneniya": "changes detected"\<close>
  "str_Obnaruzheny_izmeneniya =
     [0x41E, 0x431, 0x43D, 0x430, 0x440, 0x443, 0x436, 0x435, 0x43D, 0x44B, 0x20,
      0x438, 0x437, 0x43C, 0x435, 0x43D, 0x435, 0x43D, 0x438, 0x44F]"

definition str_java :: js_string where
  \<comment> \<open>"java"\<close>
  "str_java = [0x6A, 0x61, 0x76, 0x61]"

definition str_Oshibka_colon_space :: js_string where
  \<comment> \<open>"Oshibka: " with the trailing space, the prefix the toast removes\<close>
  "str_Oshibka_colon_space = [0x41E, 0x448, 0x438, 0x431, 0x43A, 0x430, 0x3A, 0x20]"

definition isRealError :: "js_string \<Rightarrow> bool" where
  "isRealError statusText =
     (startsWith statusText str_Oshibka_colon \<or>
      startsWith statusText str_Error_colon \<or>
      includes_str statusText str_trebuetsya_Java \<or>
      includes_str statusText str_ne_naidena \<or>
      includes_str statusText str_ne_udalos \<or>
      includes_str statusText str_Obnaruzheny_izmeneniya)"

text \<open>
  What the effect does with a status text: open the Java modal with the text
  (\<open>handleJavaError\<close>), raise a destructive toast whose description is the text without
  the first \<open>"Oshibka: "\<close>, or nothing.
\<close>

datatype alert = JavaModal js_string | ErrorToast js_string | NoAlert

definition status_effect :: "js_string \<Rightarrow> alert" where
  "status_effect statusText =
     (if isRealError statusText then
        (if includes_str (toLowerCase statusText) str_java then JavaModal statusText
         else ErrorToast (replace_first statusText str_Oshibka_colon_space []))
      else NoAlert)"

text \<open>The three classes of the spec, read off the alert.\<close>

datatype error_class = JavaEnvironment | GenericError | Informational

fun class_of :: "alert \<Rightarrow> error_class" where
  "class_of (JavaModal m) = JavaEnvironment"
| "class_of (ErrorToast d) = GenericError"
| "class_of NoAlert = Informational"

definition classify :: "js_string \<Rightarrow> error_class" where
  "classify statusText = class_of (status_effect statusText)"

section \<open>The game-directory derivations\<close>

text \<open>
  Both handlers take the path the directory picker returned and derive the directory
  they save. The regular expressions are modelled on code units:
  \<^item> \<open>[\\/]\<close> is the class of the two separators;
  \<open>path.replace(/[\\/]+$/, '')\<close> removes the run of separators at the end of the string;
  \<^item> the flag \<open>i\<close> compares canonicalised code units. Without the flag \<open>u\<close>
  a code unit is canonicalised by \<open>toUpperCase\<close>, and a unit outside ASCII is never
  mapped into ASCII; the patterns here are ASCII, so only \<open>a-z\<close> matter and every
  other unit is left as it is.
\<close>

definition backslash :: "16 word" where
  "backslash = 0x5C"

definition slash :: "16 word" where
  "slash = 0x2F"

definition is_sep :: "16 word \<Rightarrow> bool" where
  "is_sep c = (c = backslash \<or> c = slash)"

definition strip_trailing_seps :: "js_string \<Rightarrow> js_string" where
  "strip_trailing_seps s = rev (dropWhile is_sep (rev s))"

definition canonicalize :: "16 word \<Rightarrow> 16 word" where
  "canonicalize c = (if 0x61 \<le> c \<and> c \<le> 0x7A then c - 0x20 else c)"

definition str_Kristory_Client :: js_string where
  \<comment> \<open>"Kristory Client"\<close>
  "str_Kristory_Client =
     [0x4B, 0x72, 0x69, 0x73, 0x74, 0x6F, 0x72, 0x79, 0x20, 0x43, 0x6C, 0x69, 0x65, 0x6E, 0x74]"

definition str_kristory_client :: js_string where
  \<comment> \<open>"kristory client", the pattern of \<open>handleDownloadClick\<close>\<close>
  "str_kristory_client =
     [0x6B, 0x72, 0x69, 0x73, 0x74, 0x6F, 0x72, 0x79, 0x20, 0x63, 0x6C, 0x69, 0x65, 0x6E, 0x74]"

text \<open>\<open>/kristory client/i.test(s)\<close>: the name occurs somewhere, in any case.\<close>

definition test_kristory_client :: "js_string \<Rightarrow> bool" where
  "test_kristory_client s =
     includes_str (map canonicalize s) (map canonicalize str_kristory_client)"

text \<open>
  \<open>/([\\/]|^)Kristory Client([\\/]|$)/i.test(path)\<close>: the name occurs as a whole
  path component. \<open>name_then_boundary s\<close> matches \<open>Kristory Client([\\/]|$)\<close> at the
  head of \<open>s\<close>; a match starts at the beginning of the path or right after a separator.
\<close>

definition name_then_boundary :: "js_string \<Rightarrow> bool" where
  "name_then_boundary s =
     (startsWith (map canonicalize s) (map canonicalize str_Kristory_Client) \<and>
      (case drop (length str_Kristory_Client) s of [] \<Rightarrow> True | c # cs \<Rightarrow> is_sep c))"

fun component_after_sep :: "js_string \<Rightarrow> bool" where
  "component_after_sep [] = False"
| "component_after_sep (c # cs) =
     ((is_sep c \<and> name_then_boundary cs) \<or> component_after_sep cs)"

definition test_component :: "js_string \<Rightarrow> bool" where
  "test_component path = (name_then_boundary path \<or> component_after_sep path)"

text \<open>\<open>finalPath\<close> of \<open>handleDownloadClick\<close> (page.tsx).\<close>

definition finalPath_download :: "js_string \<Rightarrow> js_string" where
  "finalPath_download path =
     (let finalPath = strip_trailing_seps path in
      if \<not> test_kristory_client finalPath
      then finalPath @ (if includes_str finalPath [backslash] then [backslash] else [slash])
             @ str_Kristory_Client
      else finalPath)"

text \<open>\<open>finalPath\<close> of \<open>handleSelectGameDirectory\<close> (settings dialog).\<close>

definition finalPath_settings :: "js_string \<Rightarrow> js_string" where
  "finalPath_settings path =
     (if \<not> test_component path
      then strip_trailing_seps path
             @ (if endsWith path [backslash] \<or> endsWith path [slash] then []
                else (if includes_str path [backslash] then [backslash] else [slash]))
             @ str_Kristory_Client
      else path)"

text \<open>
  Both handlers derive a directory only under \<open>if (path)\<close>: the picker returned a
  string (not \<open>null\<close>) and the string is not empty. \<open>None\<close> is "nothing is saved".
\<close>

definition handleDownloadClick_directory :: "js_string option \<Rightarrow> js_string option" where
  "handleDownloadClick_directory picked =
     (case picked of
        None \<Rightarrow> None
      | Some path \<Rightarrow> if path = [] then None else Some (finalPath_download path))"

definition handleSelectGameDirectory_directory :: "js_string option \<Rightarrow> js_string option" where
  "handleSelectGameDirectory_directory picked =
     (case picked of
        None \<Rightarrow> None
      | Some path \<Rightarrow> if path = [] then None else Some (finalPath_settings path))"

text \<open>A path that does not end in a separator.\<close>

definition no_trailing_sep :: "js_string \<Rightarrow> bool" where
  "no_trailing_sep s = (case rev s of [] \<Rightarrow> True | c # cs \<Rightarrow> \<not> is_sep c)"

section \<open>Backend responses\<close>

text \<open>
  Every call of \<open>fetch\<close> is answered by the backend, which the model takes as an
  input: the promise rejects (network error), or it resolves to a response with its
  \<open>ok\<close> flag and a body. Reading the body with \<open>res.json()\<close> rejects on a body that
  is not JSON.
\<close>

datatype 'a json = BadJson | Json 'a

datatype 'a fetch_result = Rejected | Response bool "'a json"

datatype fetch_error = NetworkError | NotOk | InvalidJson | InvalidConfig | NotConfirmed

section \<open>The data of \<open>page.tsx\<close>\<close>

text \<open>
  The types of the source. The field \<open>type\<close> of an account has the single value
  \<open>'ely.by'\<close> and is left out. JavaScript numbers that the code only stores are
  integers here.
\<close>

record Account =
  uuid :: js_string
  username :: js_string
  accessToken :: js_string
  clientToken :: js_string

record VersionInfo =
  minecraft :: js_string
  fabric :: js_string

record LauncherStatus =
  is_processing :: bool
  status_text :: js_string
  progress :: int
  version_info :: VersionInfo
  is_game_installed :: bool

record ServerStatus =
  online :: bool
  players_online :: "int option"
  players_max :: "int option"

record GameSettings =
  server_address :: js_string
  enable_logs :: bool
  game_directory :: js_string

text \<open>
  The configuration object as it arrives: \<open>accounts\<close> is \<open>None\<close> when the field is
  missing or is not an array (\<open>Array.isArray\<close> fails), \<open>last_selected_uuid\<close> is
  \<open>None\<close> for \<open>null\<close>, \<open>game_settings\<close> is \<open>None\<close> when the field is missing.
  A parsed body that is \<open>null\<close> (or another falsy value) is \<open>None\<close> of
  \<open>LauncherConfig option\<close>.
\<close>

record LauncherConfig =
  accounts :: "Account list option"
  last_selected_uuid :: "js_string option"
  game_settings :: "GameSettings option"

text \<open>The React state of \<open>Home\<close> that the modelled functions read or write.\<close>

record Home =
  home_accounts :: "Account list"
  selectedAccount :: "Account option"
  launcherStatus :: LauncherStatus
  serverStatus :: "ServerStatus option"
  launcherConfig :: "LauncherConfig option"
  isJavaErrorOpen :: bool
  javaErrorMessage :: "js_string option"

text \<open>What a run does besides writing the state, in the order it does it.\<close>

datatype effect =
    FetchConfig
  | FetchCheckJava
  | FetchStatus
  | FetchServerStatus
  | SetTimeout int
  | ConsoleError
  | ConsoleLog

definition emit :: "'e list \<Rightarrow> 'e list \<times> 'a \<Rightarrow> 'e list \<times> 'a" where
  "emit es r = (es @ fst r, snd r)"

definition str_Oshibka_API :: js_string where
  \<comment> \<open>"Oshibka API" in Cyrillic: "API error", the status text of the terminal failure\<close>
  "str_Oshibka_API = [0x41E, 0x448, 0x438, 0x431, 0x43A, 0x430, 0x20, 0x41, 0x50, 0x49]"

section \<open>The Java check\<close>

definition handleJavaError :: "js_string option \<Rightarrow> Home \<Rightarrow> Home" where
  "handleJavaError message st = st\<lparr>javaErrorMessage := message, isJavaErrorOpen := True\<rparr>"

text \<open>
  \<open>checkJavaVersion\<close>: one fetch of \<open>/api/check-java\<close>. On a response that is not
  \<open>ok\<close> the body is read and its \<open>error\<close> field (\<open>None\<close> when the body has none)
  goes to \<open>handleJavaError\<close>. A rejected fetch or an unreadable body is only logged;
  a body that parses to \<open>null\<close> counts as unreadable, since reading its field throws
  into the same \<open>catch\<close>.
\<close>

definition checkJavaVersion :: "js_string option fetch_result \<Rightarrow> Home \<Rightarrow> effect list \<times> Home" where
  "checkJavaVersion res st =
     (case res of
        Rejected \<Rightarrow> ([FetchCheckJava, ConsoleError], st)
      | Response ok b \<Rightarrow>
          if \<not> ok then
            (case b of
               BadJson \<Rightarrow> ([FetchCheckJava, ConsoleError], st)
             | Json errorData \<Rightarrow> ([FetchCheckJava], handleJavaError errorData st))
          else ([FetchCheckJava], st))"

section \<open>The bootstrap fetch\<close>

text \<open>
  The body of the \<open>try\<close> block of \<open>fetchBackendData\<close> up to the call of
  \<open>checkJavaVersion\<close>: \<open>Inl\<close> is the exception thrown, \<open>Inr\<close> the state after
  the three setters.
\<close>

definition select_account :: "Account list \<Rightarrow> js_string option \<Rightarrow> Account option" where
  "select_account fetchedAccounts lastUuid =
     (if length fetchedAccounts > 0 then
        (case find (\<lambda>acc. Some (uuid acc) = lastUuid) fetchedAccounts of
           Some lastSelected \<Rightarrow> Some lastSelected
         | None \<Rightarrow> Some (fetchedAccounts ! 0))
      else None)"

definition read_config :: "LauncherConfig option fetch_result \<Rightarrow> Home \<Rightarrow> fetch_error + Home" where
  "read_config configRes st =
     (case configRes of
        Rejected \<Rightarrow> Inl NetworkError
      | Response ok b \<Rightarrow>
          if \<not> ok then Inl NotOk
          else
            (case b of
               BadJson \<Rightarrow> Inl InvalidJson
             | Json None \<Rightarrow> Inl InvalidConfig
             | Json (Some config) \<Rightarrow>
                 (case accounts config of
                    None \<Rightarrow> Inl InvalidConfig
                  | Some fetchedAccounts \<Rightarrow>
                      Inr (st\<lparr>launcherConfig := Some config,
                              home_accounts := fetchedAccounts,
                              selectedAccount :=
                                select_account fetchedAccounts (last_selected_uuid config)\<rparr>))))"

text \<open>
  \<open>fetchBackendData(retries, delay)\<close>. The \<open>k\<close>-th fetch of the configuration since
  the first call is answered by \<open>backend k\<close>; the answer of the Java check is
  \<open>javaRes\<close>. A retry is a timer: the model records \<open>SetTimeout delay\<close> and goes on
  with the call the timer makes.
\<close>

function fetchBackendData ::
  "(nat \<Rightarrow> LauncherConfig option fetch_result) \<Rightarrow> js_string option fetch_result \<Rightarrow>
   nat \<Rightarrow> int \<Rightarrow> int \<Rightarrow> Home \<Rightarrow> effect list \<times> Home" where
  "fetchBackendData backend javaRes k retries delay st =
     (case read_config (backend k) st of
        Inr st' \<Rightarrow> emit [FetchConfig] (checkJavaVersion javaRes st')
      | Inl error \<Rightarrow>
          if retries > 0 then
            emit [FetchConfig, ConsoleError, ConsoleLog, SetTimeout delay]
              (fetchBackendData backend javaRes (Suc k) (retries - 1) (delay * 2) st)
          else
            ([FetchConfig, ConsoleError, ConsoleError],
             st\<lparr>launcherStatus := (launcherStatus st)\<lparr>status_text := str_Oshibka_API\<rparr>,
                home_accounts := [],
                selectedAccount := None\<rparr>))"
  by pat_completeness auto
termination
  by (relation "measure (\<lambda>(backend, javaRes, k, retries, delay, st). nat retries)") auto

text \<open>Observations of a run.\<close>

fun timeouts :: "effect list \<Rightarrow> int list" where
  "timeouts [] = []"
| "timeouts (SetTimeout d # es) = d # timeouts es"
| "timeouts (e # es) = timeouts es"

definition attempts :: "effect list \<Rightarrow> nat" where
  "attempts es = count_list es FetchConfig"

definition config_ok :: "LauncherConfig option fetch_result \<Rightarrow> bool" where
  "config_ok configRes =
     (case configRes of
        Response True (Json (Some config)) \<Rightarrow> accounts config \<noteq> None
      | _ \<Rightarrow> False)"

section \<open>The status pollers\<close>

definition pollStatus :: "LauncherStatus fetch_result \<Rightarrow> Home \<Rightarrow> effect list \<times> Home" where
  "pollStatus res st =
     (case res of
        Rejected \<Rightarrow> ([FetchStatus, ConsoleError], st)
      | Response ok b \<Rightarrow>
          if \<not> ok then ([FetchStatus, ConsoleError], st)
          else
            (case b of
               BadJson \<Rightarrow> ([FetchStatus, ConsoleError], st)
             | Json data \<Rightarrow> ([FetchStatus], st\<lparr>launcherStatus := data\<rparr>)))"

definition pollServerStatus :: "ServerStatus fetch_result \<Rightarrow> Home \<Rightarrow> effect list \<times> Home" where
  "pollServerStatus res st =
     (case res of
        Rejected \<Rightarrow>
          ([FetchServerStatus, ConsoleError],
           st\<lparr>serverStatus := Some \<lparr>online = False, players_online = None, players_max = None\<rparr>\<rparr>)
      | Response ok b \<Rightarrow>
          if \<not> ok then
            ([FetchServerStatus, ConsoleError],
             st\<lparr>serverStatus := Some \<lparr>online = False, players_online = None, players_max = None\<rparr>\<rparr>)
          else
            (case b of
               BadJson \<Rightarrow>
                 ([FetchServerStatus, ConsoleError],
                  st\<lparr>serverStatus :=
                       Some \<lparr>online = False, players_online = None, players_max = None\<rparr>\<rparr>)
             | Json data \<Rightarrow> ([FetchServerStatus], st\<lparr>serverStatus := Some data\<rparr>)))"

text \<open>A poll has failed when it reached the \<open>catch\<close> block.\<close>

definition poll_failed :: "'a fetch_result \<Rightarrow> bool" where
  "poll_failed res = (case res of Response True (Json data) \<Rightarrow> False | _ \<Rightarrow> True)"

text \<open>
  The ticks of one \<open>setInterval\<close>, each answered in turn: the state after the polls
  of a list of answers.
\<close>

fun server_polls :: "ServerStatus fetch_result list \<Rightarrow> Home \<Rightarrow> Home" where
  "server_polls [] st = st"
| "server_polls (res # rest) st = server_polls rest (snd (pollServerStatus res st))"

fun status_polls :: "LauncherStatus fetch_result list \<Rightarrow> Home \<Rightarrow> Home" where
  "status_polls [] st = st"
| "status_polls (res # rest) st = status_polls rest (snd (pollStatus res st))"

section \<open>The settings dialog\<close>

datatype mod_status = enabled | disabled

record Mod =
  filename :: js_string
  name :: js_string
  description :: js_string
  status :: mod_status

record JavaSettings =
  path :: js_string
  min_mem :: int
  max_mem :: int

text \<open>The React state of \<open>SettingsDialog\<close> that the two handlers read or write.\<close>

record SettingsDialog =
  mods :: "Mod list"
  initialGameSettings :: GameSettings
  gameSettings :: GameSettings

datatype settings_key = Key_java_settings | Key_game_settings

text \<open>
  \<open>settingsData\<close> has the type \<open>any\<close>; every call passes a \<open>JavaSettings\<close> or a
  \<open>GameSettings\<close> object. Reading \<open>game_directory\<close> or \<open>enable_logs\<close> of a
  \<open>JavaSettings\<close> object gives \<open>undefined\<close>, here \<open>None\<close>.
\<close>

datatype settings_data = JavaData JavaSettings | GameData GameSettings

fun data_game_directory :: "settings_data \<Rightarrow> js_string option" where
  "data_game_directory (JavaData j) = None"
| "data_game_directory (GameData g) = Some (game_directory g)"

fun data_enable_logs :: "settings_data \<Rightarrow> bool option" where
  "data_enable_logs (JavaData j) = None"
| "data_enable_logs (GameData g) = Some (enable_logs g)"

text \<open>A value is truthy when it is a string that is not empty.\<close>

fun truthy :: "js_string option \<Rightarrow> bool" where
  "truthy None = False"
| "truthy (Some s) = (s \<noteq> [])"

datatype dialog_effect =
    PostModState js_string bool
  | SetMods "Mod list"
  | PostConfig settings_key settings_data
  | GetConfig
  | Sleep nat
  | ToastSuccess
  | ToastRestart
  | ToastError
  | OnSettingsChange

subsection \<open>\<open>handleToggleMod\<close>\<close>

text \<open>The list given to the first \<open>setMods\<close>: the optimistic update.\<close>

definition optimistic_mods :: "Mod list \<Rightarrow> js_string \<Rightarrow> bool \<Rightarrow> Mod list" where
  "optimistic_mods ms fname en =
     map (\<lambda>m. if filename m = fname
              then m\<lparr>status := (if en then enabled else disabled)\<rparr> else m) ms"

definition handleToggleMod ::
  "js_string \<Rightarrow> bool \<Rightarrow> unit fetch_result \<Rightarrow> SettingsDialog \<Rightarrow>
   dialog_effect list \<times> SettingsDialog" where
  "handleToggleMod fname en res st =
     (let originalMods = mods st;
          optimistic = optimistic_mods (mods st) fname en;
          st1 = st\<lparr>mods := optimistic\<rparr>
      in case res of
           Rejected \<Rightarrow>
             ([SetMods optimistic, PostModState fname en, SetMods originalMods, ToastError],
              st1\<lparr>mods := originalMods\<rparr>)
         | Response ok b \<Rightarrow>
             if \<not> ok then
               ([SetMods optimistic, PostModState fname en, SetMods originalMods, ToastError],
                st1\<lparr>mods := originalMods\<rparr>)
             else ([SetMods optimistic, PostModState fname en], st1))"

definition toggle_failed :: "unit fetch_result \<Rightarrow> bool" where
  "toggle_failed res = (case res of Rejected \<Rightarrow> True | Response ok b \<Rightarrow> \<not> ok)"

subsection \<open>\<open>handleSaveSettings\<close>\<close>

text \<open>
  The \<open>game_directory\<close> a re-read configuration carries:
  \<open>config?.game_settings?.game_directory\<close>.
\<close>

definition echoed_directory :: "LauncherConfig option \<Rightarrow> js_string option" where
  "echoed_directory config =
     (case config of
        None \<Rightarrow> None
      | Some c \<Rightarrow> (case game_settings c of None \<Rightarrow> None | Some g \<Rightarrow> Some (game_directory g)))"

text \<open>
  The confirmation loop \<open>for (let i = 0; i < 5; i++)\<close>, from the value \<open>i\<close> of the
  counter; the \<open>i\<close>-th re-read is answered by \<open>reads i\<close>. \<open>Inr updated\<close> is the
  flag at the end of the loop, \<open>Inl\<close> an exception that left it.
\<close>

function confirm_loop ::
  "(nat \<Rightarrow> LauncherConfig option fetch_result) \<Rightarrow> js_string \<Rightarrow> nat \<Rightarrow>
   dialog_effect list \<times> (fetch_error + bool)" where
  "confirm_loop reads dir i =
     (if i < 5 then
        (case reads i of
           Rejected \<Rightarrow> ([GetConfig], Inl NetworkError)
         | Response ok b \<Rightarrow>
             if ok then
               (case b of
                  BadJson \<Rightarrow> ([GetConfig], Inl InvalidJson)
                | Json config \<Rightarrow>
                    if echoed_directory config = Some dir then ([GetConfig], Inr True)
                    else emit [GetConfig, Sleep 200] (confirm_loop reads dir (i + 1)))
             else emit [GetConfig, Sleep 200] (confirm_loop reads dir (i + 1)))
      else ([], Inr False))"
  by pat_completeness auto
termination
  by (relation "measure (\<lambda>(reads, dir, i). 5 - i)") auto

text \<open>The \<open>try\<close> block of \<open>handleSaveSettings\<close>; \<open>Inl\<close> is the exception thrown.\<close>

definition save_settings_try ::
  "settings_key \<Rightarrow> settings_data \<Rightarrow> unit fetch_result \<Rightarrow>
   (nat \<Rightarrow> LauncherConfig option fetch_result) \<Rightarrow> SettingsDialog \<Rightarrow>
   dialog_effect list \<times> (fetch_error + unit)" where
  "save_settings_try settingsKey settingsData res reads st =
     (case res of
        Rejected \<Rightarrow> ([PostConfig settingsKey settingsData], Inl NetworkError)
      | Response ok b \<Rightarrow>
          if \<not> ok then ([PostConfig settingsKey settingsData], Inl NotOk)
          else
            (let confirmed =
                   (if settingsKey = Key_game_settings \<and> truthy (data_game_directory settingsData)
                    then confirm_loop reads (the (data_game_directory settingsData)) 0
                    else ([], Inr True))
             in case snd confirmed of
                  Inl error \<Rightarrow> (PostConfig settingsKey settingsData # fst confirmed, Inl error)
                | Inr updated \<Rightarrow>
                    if \<not> updated
                    then (PostConfig settingsKey settingsData # fst confirmed, Inl NotConfirmed)
                    else
                      (PostConfig settingsKey settingsData # fst confirmed
                         @ [ToastSuccess]
                         @ (if settingsKey = Key_game_settings \<and>
                               data_enable_logs settingsData
                                 \<noteq> Some (enable_logs (initialGameSettings st))
                            then [ToastRestart] else [])
                         @ [OnSettingsChange],
                       Inr ())))"

definition handleSaveSettings ::
  "settings_key \<Rightarrow> settings_data \<Rightarrow> unit fetch_result \<Rightarrow>
   (nat \<Rightarrow> LauncherConfig option fetch_result) \<Rightarrow> SettingsDialog \<Rightarrow> dialog_effect list" where
  "handleSaveSettings settingsKey settingsData res reads st =
     (case save_settings_try settingsKey settingsData res reads st of
        (es, Inl error) \<Rightarrow> es @ [ToastError]
      | (es, Inr u) \<Rightarrow> es)"

text \<open>Observations of a save.\<close>

definition save_failed :: "dialog_effect list \<Rightarrow> bool" where
  "save_failed es = (ToastError \<in> set es \<and> ToastSuccess \<notin> set es \<and> OnSettingsChange \<notin> set es)"

definition save_succeeded :: "dialog_effect list \<Rightarrow> bool" where
  "save_succeeded es = (ToastSuccess \<in> set es \<and> ToastError \<notin> set es)"

definition rereads :: "dialog_effect list \<Rightarrow> nat" where
  "rereads es = count_list es GetConfig"

text \<open>
  A re-read that answers (it does not throw) without the written directory, and a
  re-read that answers with it.
\<close>

definition answers_without :: "js_string \<Rightarrow> LauncherConfig option fetch_result \<Rightarrow> bool" where
  "answers_without dir r =
     (case r of
        Rejected \<Rightarrow> False
      | Response ok b \<Rightarrow>
          if ok then (case b of BadJson \<Rightarrow> False | Json config \<Rightarrow> echoed_directory config \<noteq> Some dir)
          else True)"

definition echoes :: "js_string \<Rightarrow> LauncherConfig option fetch_result \<Rightarrow> bool" where
  "echoes dir r =
     (case r of
        Response True (Json config) \<Rightarrow> echoed_directory config = Some dir
      | _ \<Rightarrow> False)"

text \<open>A re-read that throws: the fetch rejects, or the body of a 2xx response does not parse.\<close>

definition read_throws :: "LauncherConfig option fetch_result \<Rightarrow> bool" where
  "read_throws r = (case r of Rejected \<Rightarrow> True | Response ok b \<Rightarrow> ok \<and> b = BadJson)"

section \<open>Initial states\<close>

text \<open>The arguments of the \<open>useState\<close> calls of the two components.\<close>

definition str_Podklyuchenie :: js_string where
  \<comment> \<open>"Podklyuchenie..." in Cyrillic: "Connecting..."\<close>
  "str_Podklyuchenie =
     [0x41F, 0x43E, 0x434, 0x43A, 0x43B, 0x44E, 0x447, 0x435, 0x43D, 0x438, 0x435, 0x2E,
      0x2E, 0x2E]"

definition str_NA :: js_string where
  \<comment> \<open>"N/A"\<close>
  "str_NA = [0x4E, 0x2F, 0x41]"

definition str_java_required_message :: js_string where
  \<comment> \<open>the default text of the Java dialog: "Minecraft needs Java to start. Please
      install the recommended version and try again." in Russian\<close>
  "str_java_required_message =
     [0x414, 0x43B, 0x44F, 0x20, 0x437, 0x430, 0x43F, 0x443, 0x441, 0x43A, 0x430, 0x20,
      0x4D, 0x69, 0x6E, 0x65, 0x63, 0x72, 0x61, 0x66, 0x74, 0x20, 0x442, 0x440,
      0x435, 0x431, 0x443, 0x435, 0x442, 0x441, 0x44F, 0x20, 0x4A, 0x61, 0x76, 0x61,
      0x2E, 0x20, 0x41F, 0x43E, 0x436, 0x430, 0x43B, 0x443, 0x439, 0x441, 0x442, 0x430,
      0x2C, 0x20, 0x443, 0x441, 0x442, 0x430, 0x43D, 0x43E, 0x432, 0x438, 0x442, 0x435,
      0x20, 0x440, 0x435, 0x43A, 0x43E, 0x43C, 0x435, 0x43D, 0x434, 0x43E, 0x432, 0x430,
      0x43D, 0x43D, 0x443, 0x44E, 0x20, 0x432, 0x435, 0x440, 0x441, 0x438, 0x44E, 0x20,
      0x438, 0x20, 0x43F, 0x43E, 0x43F, 0x440, 0x43E, 0x431, 0x443, 0x439, 0x442, 0x435,
      0x20, 0x441, 0x43D, 0x43E, 0x432, 0x430, 0x2E]"

definition initial_home :: Home where
  "initial_home =
     \<lparr>home_accounts = [],
      selectedAccount = None,
      launcherStatus =
        \<lparr>is_processing = False, status_text = str_Podklyuchenie, progress = 0,
         version_info = \<lparr>minecraft = str_NA, fabric = str_NA\<rparr>,
         is_game_installed = False\<rparr>,
      serverStatus = None,
      launcherConfig = None,
      isJavaErrorOpen = False,
      javaErrorMessage = Some str_java_required_message\<rparr>"

definition initial_dialog :: SettingsDialog where
  "initial_dialog =
     \<lparr>mods = [],
      initialGameSettings = \<lparr>server_address = [], enable_logs = False, game_directory = []\<rparr>,
      gameSettings = \<lparr>server_address = [], enable_logs = False, game_directory = []\<rparr>\<rparr>"

declare fetchBackendData.simps [simp del]

declare confirm_loop.simps [simp del]

section \<open>Facts about the string functions\<close>

lemma startsWith_prefix: "startsWith s p \<longleftrightarrow> prefix p s"
  by (induction s p rule: startsWith.induct) auto

lemma includes_sublist: "includes_str s p \<longleftrightarrow> sublist p s"
proof (induction s)
  case Nil
  show ?case by (cases p) auto
next
  case (Cons c cs)
  show ?case
    by (simp only: includes_str.simps Cons.IH startsWith_prefix sublist_Cons_right)
qed

section \<open>The error classifier on the inputs of the spec\<close>

text \<open>
  C5: the classifier maps "Oshibka: trebuetsya Java" (Cyrillic, "Error: Java required")
  to the java-environment class, "Obnaruzheny izmeneniya" ("changes detected") to the
  generic error class, and "Gotov" ("Ready") to the informational class, which raises
  no alert.
\<close>

theorem classify_spec_inputs:
  "classify [0x41E, 0x448, 0x438, 0x431, 0x43A, 0x430, 0x3A, 0x20, 0x442, 0x440, 0x435,
             0x431, 0x443, 0x435, 0x442, 0x441, 0x44F, 0x20, 0x4A, 0x61, 0x76, 0x61]
     = JavaEnvironment
   \<and> classify [0x41E, 0x431, 0x43D, 0x430, 0x440, 0x443, 0x436, 0x435, 0x43D, 0x44B, 0x20,
               0x438, 0x437, 0x43C, 0x435, 0x43D, 0x435, 0x43D, 0x438, 0x44F]
     = GenericError
   \<and> classify [0x413, 0x43E, 0x442, 0x43E, 0x432] = Informational
   \<and> status_effect [0x413, 0x43E, 0x442, 0x43E, 0x432] = NoAlert"
  by (simp add: classify_def status_effect_def isRealError_def toLowerCase_def
      toLowerCase_unit_def str_Oshibka_colon_def str_Error_colon_def
      str_trebuetsya_Java_def str_ne_naidena_def str_ne_udalos_def
      str_Obnaruzheny_izmeneniya_def str_java_def str_Oshibka_colon_space_def)

section \<open>The optimistic mod toggle\<close>

lemma optimistic_mods_nth:
  "i < length ms \<Longrightarrow>
   optimistic_mods ms f en ! i =
     (if filename (ms ! i) = f then (ms ! i)\<lparr>status := (if en then enabled else disabled)\<rparr>
      else ms ! i)"
  by (simp add: optimistic_mods_def)

text \<open>
  C9: for every mod list and every call of the toggle with a file name and a desired
  state, the optimistic update changes at most the status of the mods whose file name
  is the argument. The file name, name and description of every mod, every mod with
  another file name, and the length and order of the list are unchanged.
\<close>

theorem optimistic_mods_frame:
  "length (optimistic_mods ms f en) = length ms \<and>
   map filename (optimistic_mods ms f en) = map filename ms \<and>
   (\<forall>i < length ms.
      filename (optimistic_mods ms f en ! i) = filename (ms ! i) \<and>
      name (optimistic_mods ms f en ! i) = name (ms ! i) \<and>
      description (optimistic_mods ms f en ! i) = description (ms ! i) \<and>
      (filename (ms ! i) \<noteq> f \<longrightarrow> optimistic_mods ms f en ! i = ms ! i) \<and>
      (filename (ms ! i) = f \<longrightarrow>
         optimistic_mods ms f en ! i = (ms ! i)\<lparr>status := (if en then enabled else disabled)\<rparr>))"
proof (intro conjI allI impI)
  show "length (optimistic_mods ms f en) = length ms"
    by (simp add: optimistic_mods_def)
  show "map filename (optimistic_mods ms f en) = map filename ms"
    by (simp add: optimistic_mods_def)
next
  fix i assume i: "i < length ms"
  note nth = optimistic_mods_nth [OF i, of f en]
  show "filename (optimistic_mods ms f en ! i) = filename (ms ! i)"
    by (simp add: nth)
  show "name (optimistic_mods ms f en ! i) = name (ms ! i)"
    by (simp add: nth)
  show "description (optimistic_mods ms f en ! i) = description (ms ! i)"
    by (simp add: nth)
  show "optimistic_mods ms f en ! i = ms ! i" if "filename (ms ! i) \<noteq> f"
    using that by (simp add: nth)
  show "optimistic_mods ms f en ! i = (ms ! i)\<lparr>status := (if en then enabled else disabled)\<rparr>"
    if "filename (ms ! i) = f"
    using that by (simp add: nth)
qed

theorem optimistic_mods_frame_witness:
  "(1::nat) < length [\<lparr>filename = [0x61], name = [0x41], description = [], status = enabled\<rparr>,
                      \<lparr>filename = [0x62], name = [0x42], description = [], status = enabled\<rparr>] \<and>
   optimistic_mods [\<lparr>filename = [0x61], name = [0x41], description = [], status = enabled\<rparr>,
                    \<lparr>filename = [0x62], name = [0x42], description = [], status = enabled\<rparr>]
       [0x61] False
     = [\<lparr>filename = [0x61], name = [0x41], description = [], status = disabled\<rparr>,
        \<lparr>filename = [0x62], name = [0x42], description = [], status = enabled\<rparr>]"
  using optimistic_mods_frame
    [of "[\<lparr>filename = [0x61], name = [0x41], description = [], status = enabled\<rparr>,
          \<lparr>filename = [0x62], name = [0x42], description = [], status = enabled\<rparr>]" "[0x61]" False]
  by (simp add: optimistic_mods_def)

text \<open>
  C3: for every mod list \<open>L\<close>, file name and desired state, when the toggle has applied
  the optimistic update to \<open>L\<close> and the backend call fails (the fetch rejects or the
  response is not 2xx), the mod list at the end is \<open>L\<close> itself: the second \<open>setMods\<close>
  restores the whole snapshot, and no other field of the dialog state has changed.
\<close>

theorem handleToggleMod_failure_restores:
  assumes "toggle_failed res" and "mods st = L"
  shows "mods (snd (handleToggleMod f en res st)) = L \<and>
         snd (handleToggleMod f en res st) = st \<and>
         fst (handleToggleMod f en res st) =
           [SetMods (optimistic_mods L f en), PostModState f en, SetMods L, ToastError]"
proof (cases res)
  case Rejected
  with assms(2) show ?thesis by (simp add: handleToggleMod_def Let_def)
next
  case (Response ok b)
  with assms(1) have "\<not> ok" by (simp add: toggle_failed_def)
  with Response assms(2) show ?thesis by (simp add: handleToggleMod_def Let_def)
qed

theorem handleToggleMod_failure_restores_witness:
  "toggle_failed (Response False BadJson) \<and>
   mods (snd (handleToggleMod [0x61] False (Response False BadJson)
          (initial_dialog\<lparr>mods :=
             [\<lparr>filename = [0x61], name = [0x41], description = [], status = enabled\<rparr>,
              \<lparr>filename = [0x62], name = [0x42], description = [], status = disabled\<rparr>]\<rparr>)))
     = [\<lparr>filename = [0x61], name = [0x41], description = [], status = enabled\<rparr>,
        \<lparr>filename = [0x62], name = [0x42], description = [], status = disabled\<rparr>]"
proof -
  have h: "toggle_failed (Response False BadJson)"
    by (simp add: toggle_failed_def)
  show ?thesis
    using h handleToggleMod_failure_restores [OF h, of
        "initial_dialog\<lparr>mods :=
             [\<lparr>filename = [0x61], name = [0x41], description = [], status = enabled\<rparr>,
              \<lparr>filename = [0x62], name = [0x42], description = [], status = disabled\<rparr>]\<rparr>"
        "[\<lparr>filename = [0x61], name = [0x41], description = [], status = enabled\<rparr>,
          \<lparr>filename = [0x62], name = [0x42], description = [], status = disabled\<rparr>]"
        "[0x61]" False]
    by simp
qed

section \<open>The status pollers on a failed poll\<close>

lemma pollStatus_failed:
  "poll_failed res \<Longrightarrow> pollStatus res st = ([FetchStatus, ConsoleError], st)"
  by (auto simp: poll_failed_def pollStatus_def split: fetch_result.splits json.splits bool.splits)

lemma pollServerStatus_failed:
  "poll_failed res \<Longrightarrow>
   pollServerStatus res st =
     ([FetchServerStatus, ConsoleError],
      st\<lparr>serverStatus := Some \<lparr>online = False, players_online = None, players_max = None\<rparr>\<rparr>)"
  by (auto simp: poll_failed_def pollServerStatus_def split: fetch_result.splits json.splits bool.splits)

lemma server_polls_snoc:
  "server_polls (rs @ [res]) st = snd (pollServerStatus res (server_polls rs st))"
  by (induction rs arbitrary: st) simp_all

lemma status_polls_snoc:
  "status_polls (rs @ [res]) st = snd (pollStatus res (status_polls rs st))"
  by (induction rs arbitrary: st) simp_all

text \<open>
  C6: on a failed poll the two loops differ. A failed launcher-status poll leaves the
  whole state as it was and only logs; a failed server-status poll sets the server
  state to exactly \<open>{online: false}\<close>, so after any sequence of server polls that ends
  in a failed one the state shown is never an \<open>{online: true}\<close> of an earlier poll.
\<close>

theorem failed_polls_diverge:
  assumes "poll_failed res" and "poll_failed sres"
  shows "snd (pollStatus res st) = st \<and>
         fst (pollStatus res st) = [FetchStatus, ConsoleError] \<and>
         status_polls (rs @ [res]) st = status_polls rs st \<and>
         serverStatus (snd (pollServerStatus sres st))
           = Some \<lparr>online = False, players_online = None, players_max = None\<rparr> \<and>
         serverStatus (server_polls (srs @ [sres]) st)
           = Some \<lparr>online = False, players_online = None, players_max = None\<rparr>"
  using assms
  by (simp add: pollStatus_failed pollServerStatus_failed server_polls_snoc status_polls_snoc)

theorem failed_polls_diverge_witness:
  "poll_failed (Rejected :: LauncherStatus fetch_result) \<and>
   poll_failed (Response False BadJson :: ServerStatus fetch_result) \<and>
   launcherStatus (snd (pollStatus Rejected initial_home)) = launcherStatus initial_home \<and>
   serverStatus (server_polls
       [Response True (Json \<lparr>online = True, players_online = Some 3, players_max = Some 20\<rparr>),
        Response False BadJson] initial_home)
     = Some \<lparr>online = False, players_online = None, players_max = None\<rparr>"
proof -
  have h1: "poll_failed (Rejected :: LauncherStatus fetch_result)"
    by (simp add: poll_failed_def)
  have h2: "poll_failed (Response False BadJson :: ServerStatus fetch_result)"
    by (simp add: poll_failed_def)
  show ?thesis
    using h1 h2 failed_polls_diverge [OF h1 h2, of initial_home "[]"
        "[Response True (Json \<lparr>online = True, players_online = Some 3, players_max = Some 20\<rparr>)]"]
    by simp
qed

section \<open>The bootstrap fetch: retries, the Java check, the selected account\<close>

lemma read_config_Inr_iff:
  "(\<exists>st'. read_config r st = Inr st') \<longleftrightarrow> config_ok r"
  by (auto simp: read_config_def config_ok_def
      split: fetch_result.splits json.splits option.splits bool.splits)

lemma read_config_ok:
  "config_ok r \<Longrightarrow>
   \<exists>config accs. r = Response True (Json (Some config)) \<and> accounts config = Some accs \<and>
     read_config r st =
       Inr (st\<lparr>launcherConfig := Some config, home_accounts := accs,
               selectedAccount := select_account accs (last_selected_uuid config)\<rparr>)"
  by (auto simp: read_config_def config_ok_def
      split: fetch_result.splits json.splits option.splits bool.splits)

lemma read_config_not_ok:
  "\<not> config_ok r \<Longrightarrow> \<exists>e. read_config r st = Inl e"
  using read_config_Inr_iff [of r st] by (cases "read_config r st") auto

lemma checkJavaVersion_frame:
  "home_accounts (snd (checkJavaVersion res st)) = home_accounts st \<and>
   selectedAccount (snd (checkJavaVersion res st)) = selectedAccount st \<and>
   launcherConfig (snd (checkJavaVersion res st)) = launcherConfig st \<and>
   launcherStatus (snd (checkJavaVersion res st)) = launcherStatus st"
  by (simp add: checkJavaVersion_def handleJavaError_def
      split: fetch_result.splits json.splits)

lemma checkJavaVersion_effects:
  "FetchCheckJava \<in> set (fst (checkJavaVersion res st)) \<and>
   FetchConfig \<notin> set (fst (checkJavaVersion res st)) \<and>
   timeouts (fst (checkJavaVersion res st)) = []"
  by (simp add: checkJavaVersion_def split: fetch_result.splits json.splits)

lemma select_account_cases:
  "(accs = [] \<longrightarrow> select_account accs u = None) \<and>
   (\<forall>a \<in> set accs. Some (uuid a) = u \<longrightarrow>
      (\<exists>b \<in> set accs. select_account accs u = Some b \<and> Some (uuid b) = u)) \<and>
   (accs \<noteq> [] \<longrightarrow> (\<forall>a \<in> set accs. Some (uuid a) \<noteq> u) \<longrightarrow>
      select_account accs u = Some (hd accs)) \<and>
   (\<forall>b. select_account accs u = Some b \<longrightarrow> b \<in> set accs)"
proof (cases "find (\<lambda>acc. Some (uuid acc) = u) accs")
  case None
  then have no: "\<forall>a \<in> set accs. Some (uuid a) \<noteq> u"
    by (simp add: find_None_iff)
  show ?thesis
    using None no by (cases accs) (auto simp: select_account_def)
next
  case (Some b)
  then have "b \<in> set accs" "Some (uuid b) = u"
    by (auto simp: find_Some_iff)
  then show ?thesis
    using Some by (cases accs) (auto simp: select_account_def)
qed

lemma select_account_distinct:
  assumes "distinct (map uuid accs)" "a \<in> set accs" "Some (uuid a) = u"
  shows "select_account accs u = Some a"
proof -
  from select_account_cases [of accs u] assms(2,3)
  obtain b where b: "b \<in> set accs" "select_account accs u = Some b" "Some (uuid b) = u"
    by blast
  with assms have "uuid a = uuid b" by auto
  with assms(1,2) b(1) have "a = b"
    by (meson distinct_map inj_onD)
  with b show ?thesis by simp
qed

lemma emit_simps:
  "fst (emit es r) = es @ fst r" "snd (emit es r) = snd r"
  by (simp_all add: emit_def)

lemma fetchBackendData_success:
  "read_config (backend k) st = Inr st' \<Longrightarrow>
   fetchBackendData backend javaRes k retries delay st
     = emit [FetchConfig] (checkJavaVersion javaRes st')"
  by (simp add: fetchBackendData.simps)

lemma fetchBackendData_retry:
  "read_config (backend k) st = Inl e \<Longrightarrow> 0 < retries \<Longrightarrow>
   fetchBackendData backend javaRes k retries delay st
     = emit [FetchConfig, ConsoleError, ConsoleLog, SetTimeout delay]
         (fetchBackendData backend javaRes (Suc k) (retries - 1) (delay * 2) st)"
  by (subst fetchBackendData.simps) simp

lemma fetchBackendData_terminal:
  "read_config (backend k) st = Inl e \<Longrightarrow> \<not> 0 < retries \<Longrightarrow>
   fetchBackendData backend javaRes k retries delay st
     = ([FetchConfig, ConsoleError, ConsoleError],
        st\<lparr>launcherStatus := (launcherStatus st)\<lparr>status_text := str_Oshibka_API\<rparr>,
           home_accounts := [],
           selectedAccount := None\<rparr>)"
  by (subst fetchBackendData.simps) simp

lemma ex_attempt_shift:
  assumes "\<not> P k" "0 < (r::int)"
  shows "(\<exists>n \<le> nat r. P (k + n)) \<longleftrightarrow> (\<exists>n \<le> nat (r - 1). P (Suc k + n))"
proof
  assume "\<exists>n \<le> nat r. P (k + n)"
  then obtain n where n: "n \<le> nat r" "P (k + n)" by blast
  with assms(1) have "n \<noteq> 0" by (cases n) auto
  then obtain m where m: "n = Suc m" by (cases n) auto
  with n assms(2) have "m \<le> nat (r - 1)" "P (Suc k + m)" by auto
  then show "\<exists>n \<le> nat (r - 1). P (Suc k + n)" by blast
next
  assume "\<exists>n \<le> nat (r - 1). P (Suc k + n)"
  then obtain m where m: "m \<le> nat (r - 1)" "P (Suc k + m)" by blast
  with assms(2) have "Suc m \<le> nat r" "P (k + Suc m)" by auto
  then show "\<exists>n \<le> nat r. P (k + n)" by blast
qed

lemma count_checkJava:
  "count_list (fst (checkJavaVersion res st)) FetchCheckJava = 1"
  by (simp add: checkJavaVersion_def split: fetch_result.splits json.splits)

lemma fetchBackendData_checks:
  "count_list (fst (fetchBackendData backend javaRes k retries delay st)) FetchCheckJava
     = (if \<exists>n \<le> nat retries. config_ok (backend (k + n)) then 1 else 0)"
proof (induction backend javaRes k retries delay st rule: fetchBackendData.induct)
  case (1 backend javaRes k retries delay st)
  show ?case
  proof (cases "config_ok (backend k)")
    case True
    then obtain st' where st': "read_config (backend k) st = Inr st'"
      using read_config_Inr_iff [of "backend k" st] by blast
    have "\<exists>n \<le> nat retries. config_ok (backend (k + n))"
      using True by (intro exI [of _ 0]) simp
    then show ?thesis
      by (simp add: fetchBackendData_success [where backend = backend and k = k, OF st'] emit_simps count_checkJava)
  next
    case False
    then obtain e where e: "read_config (backend k) st = Inl e"
      using read_config_not_ok by blast
    show ?thesis
    proof (cases "0 < retries")
      case True
      have shift: "(\<exists>n \<le> nat retries. config_ok (backend (k + n)))
          \<longleftrightarrow> (\<exists>n \<le> nat (retries - 1). config_ok (backend (Suc k + n)))"
        using ex_attempt_shift [of "\<lambda>i. config_ok (backend i)" k retries] False True by simp
      show ?thesis
        using "1.IH" [OF e True]
        by (simp only: fetchBackendData_retry [where backend = backend and k = k, OF e True] emit_simps shift) simp
    next
      case neg: False
      then have "nat retries = 0" by simp
      with False have "\<not> (\<exists>n \<le> nat retries. config_ok (backend (k + n)))" by simp
      then show ?thesis
        by (simp add: fetchBackendData_terminal [where backend = backend and k = k, OF e neg])
    qed
  qed
qed

lemma fetchBackendData_all_fail:
  "\<forall>n \<le> nat retries. \<not> config_ok (backend (k + n)) \<Longrightarrow>
   timeouts (fst (fetchBackendData backend javaRes k retries delay st))
     = map (\<lambda>i. delay * 2 ^ i) [0..<nat retries] \<and>
   attempts (fst (fetchBackendData backend javaRes k retries delay st)) = Suc (nat retries) \<and>
   snd (fetchBackendData backend javaRes k retries delay st)
     = st\<lparr>launcherStatus := (launcherStatus st)\<lparr>status_text := str_Oshibka_API\<rparr>,
          home_accounts := [],
          selectedAccount := None\<rparr>"
proof (induction backend javaRes k retries delay st rule: fetchBackendData.induct)
  case (1 backend javaRes k retries delay st)
  from "1.prems" have "\<not> config_ok (backend k)"
    by (metis add.right_neutral le0)
  then obtain e where e: "read_config (backend k) st = Inl e"
    using read_config_not_ok by blast
  show ?case
  proof (cases "0 < retries")
    case True
    have "\<forall>n \<le> nat (retries - 1). \<not> config_ok (backend (Suc k + n))"
    proof (intro allI impI)
      fix n assume "n \<le> nat (retries - 1)"
      with True have "Suc n \<le> nat retries" by simp
      with "1.prems" have "\<not> config_ok (backend (k + Suc n))" by blast
      then show "\<not> config_ok (backend (Suc k + n))" by simp
    qed
    note IH = "1.IH" [OF e True this]
    from True obtain m where m: "nat retries = Suc m" "nat (retries - 1) = m"
      by (cases "nat retries") auto
    have "map (\<lambda>i. delay * 2 ^ i) [0..<Suc m]
        = delay # map (\<lambda>i. delay * 2 * 2 ^ i) [0..<m]"
      by (simp add: upt_conv_Cons map_Suc_upt [symmetric] del: upt_Suc)
    with IH m show ?thesis
      by (simp add: fetchBackendData_retry [where backend = backend and k = k, OF e True] emit_simps attempts_def del: upt_Suc)
  next
    case False
    then have "nat retries = 0" by simp
    then show ?thesis
      by (simp add: fetchBackendData_terminal [where backend = backend and k = k, OF e False] attempts_def)
  qed
qed

lemma fetchBackendData_first_success:
  "n \<le> nat retries \<Longrightarrow> \<forall>j < n. \<not> config_ok (backend (k + j)) \<Longrightarrow>
   read_config (backend (k + n)) st = Inr st' \<Longrightarrow>
   snd (fetchBackendData backend javaRes k retries delay st) = snd (checkJavaVersion javaRes st') \<and>
   attempts (fst (fetchBackendData backend javaRes k retries delay st)) = Suc n \<and>
   timeouts (fst (fetchBackendData backend javaRes k retries delay st))
     = map (\<lambda>i. delay * 2 ^ i) [0..<n]"
proof (induction n arbitrary: k retries delay)
  case 0
  then have "read_config (backend k) st = Inr st'" by simp
  note st' = this
  show ?case
    by (simp add: fetchBackendData_success [where backend = backend and k = k, OF st']
        emit_simps attempts_def checkJavaVersion_effects)
next
  case (Suc n)
  from Suc.prems(2) have "\<not> config_ok (backend k)"
    by (metis add.right_neutral zero_less_Suc)
  then obtain e where e: "read_config (backend k) st = Inl e"
    using read_config_not_ok by blast
  from Suc.prems(1) have pos: "0 < retries" by simp
  from Suc.prems(1) have le: "n \<le> nat (retries - 1)" by simp
  have fails: "\<forall>j < n. \<not> config_ok (backend (Suc k + j))"
  proof (intro allI impI)
    fix j assume "j < n"
    then have "Suc j < Suc n" by simp
    with Suc.prems(2) have "\<not> config_ok (backend (k + Suc j))" by blast
    then show "\<not> config_ok (backend (Suc k + j))" by simp
  qed
  from Suc.prems(3) have ok: "read_config (backend (Suc k + n)) st = Inr st'" by simp
  note IH = Suc.IH [OF le fails ok, of "delay * 2"]
  have "map (\<lambda>i. delay * 2 ^ i) [0..<Suc n]
      = delay # map (\<lambda>i. delay * 2 * 2 ^ i) [0..<n]"
    by (simp add: upt_conv_Cons map_Suc_upt [symmetric] del: upt_Suc)
  with IH show ?case
    by (simp add: fetchBackendData_retry [where backend = backend and k = k, OF e pos] emit_simps attempts_def del: upt_Suc)
qed

text \<open>
  C1, as the code has it: for every run of \<open>fetchBackendData\<close> started with
  \<open>retries = 5\<close> and \<open>delay = 500\<close> in which every attempt fails, the delay of the timer
  before retry \<open>n\<close> (\<open>1 \<le> n \<le> 5\<close>) is \<open>500 * 2 ^ (n - 1)\<close> ms, there are exactly five
  retries, so six fetches of the configuration with the first one, and the terminal
  failure sets the status text to the fixed error string and clears the accounts and
  the selected account; the Java check is not made.
\<close>

theorem bootstrap_all_attempts_fail:
  assumes "\<forall>n \<le> 5. \<not> config_ok (backend n)"
  shows "timeouts (fst (fetchBackendData backend javaRes 0 5 500 st))
           = [500, 1000, 2000, 4000, 8000] \<and>
         (\<forall>n. 1 \<le> n \<and> n \<le> 5 \<longrightarrow>
            timeouts (fst (fetchBackendData backend javaRes 0 5 500 st)) ! (n - 1)
              = 500 * 2 ^ (n - 1)) \<and>
         length (timeouts (fst (fetchBackendData backend javaRes 0 5 500 st))) = 5 \<and>
         attempts (fst (fetchBackendData backend javaRes 0 5 500 st)) = 6 \<and>
         FetchCheckJava \<notin> set (fst (fetchBackendData backend javaRes 0 5 500 st)) \<and>
         snd (fetchBackendData backend javaRes 0 5 500 st)
           = st\<lparr>launcherStatus := (launcherStatus st)\<lparr>status_text := str_Oshibka_API\<rparr>,
                home_accounts := [],
                selectedAccount := None\<rparr>"
proof -
  let ?es = "fst (fetchBackendData backend javaRes 0 5 500 st)"
  from assms have fails: "\<forall>n \<le> nat 5. \<not> config_ok (backend (0 + n))" by simp
  note all = fetchBackendData_all_fail [OF fails, of javaRes 500 st]
  have t: "timeouts ?es = map (\<lambda>i. 500 * 2 ^ i) [0..<5]"
    using all by simp
  have nth: "timeouts ?es ! (n - 1) = 500 * 2 ^ (n - 1)" if "1 \<le> n \<and> n \<le> 5" for n
  proof -
    from that have "n - 1 < 5" by arith
    then show ?thesis by (simp only: t) simp
  qed
  have "count_list ?es FetchCheckJava = 0"
    using fails by (simp add: fetchBackendData_checks)
  then have nocheck: "FetchCheckJava \<notin> set ?es"
    by (simp add: count_list_0_iff)
  have list: "timeouts ?es = [500, 1000, 2000, 4000, 8000]"
    by (simp add: t upt_rec)
  show ?thesis
    using all nth nocheck list by simp
qed

theorem bootstrap_all_attempts_fail_witness:
  "\<not> config_ok (Response False BadJson) \<and>
   attempts (fst (fetchBackendData (\<lambda>k. Response False BadJson) Rejected 0 5 500 initial_home))
     = 6 \<and>
   timeouts (fst (fetchBackendData (\<lambda>k. Response False BadJson) Rejected 0 5 500 initial_home))
     = [500, 1000, 2000, 4000, 8000] \<and>
   status_text (launcherStatus
      (snd (fetchBackendData (\<lambda>k. Response False BadJson) Rejected 0 5 500 initial_home)))
     = [0x41E, 0x448, 0x438, 0x431, 0x43A, 0x430, 0x20, 0x41, 0x50, 0x49]"
proof -
  have h: "\<forall>n \<le> 5. \<not> config_ok ((\<lambda>k. Response False BadJson) n)"
    by (simp add: config_ok_def)
  show ?thesis
    using bootstrap_all_attempts_fail [of "\<lambda>k. Response False BadJson", OF h, of Rejected initial_home]
    by (simp add: str_Oshibka_API_def config_ok_def)
qed

text \<open>
  The claim C1 bounds the attempts before the terminal failure by five; the run in
  which the backend never answers makes six.
\<close>

theorem bootstrap_attempts_counterexample:
  "attempts (fst (fetchBackendData (\<lambda>k. Rejected) Rejected 0 5 500 initial_home)) = 6 \<and>
   \<not> attempts (fst (fetchBackendData (\<lambda>k. Rejected) Rejected 0 5 500 initial_home)) \<le> 5"
  using fetchBackendData_all_fail [of 5 "\<lambda>k. Rejected" 0 Rejected 500 initial_home]
  by (simp add: config_ok_def)

text \<open>
  C7: the bootstrap fetch calls \<open>checkJavaVersion\<close> if and only if one of its
  attempts succeeds, that is, the response is 2xx, its body parses and carries an
  array of accounts. It makes the call at most once, never on a failed attempt and
  never on the terminal failure.
\<close>

theorem checkJava_iff_fetch_succeeds:
  "(FetchCheckJava \<in> set (fst (fetchBackendData backend javaRes k retries delay st))
      \<longleftrightarrow> (\<exists>n \<le> nat retries. config_ok (backend (k + n)))) \<and>
   count_list (fst (fetchBackendData backend javaRes k retries delay st)) FetchCheckJava \<le> 1 \<and>
   (config_ok r \<longleftrightarrow> (\<exists>st'. read_config r st = Inr st')) \<and>
   (\<not> config_ok r \<longleftrightarrow> (\<exists>e. read_config r st = Inl e))"
proof -
  let ?es = "fst (fetchBackendData backend javaRes k retries delay st)"
  have c: "count_list ?es FetchCheckJava
      = (if \<exists>n \<le> nat retries. config_ok (backend (k + n)) then 1 else 0)"
    by (rule fetchBackendData_checks)
  have "FetchCheckJava \<in> set ?es \<longleftrightarrow> count_list ?es FetchCheckJava \<noteq> 0"
    by (simp add: count_list_0_iff)
  with c have iff: "FetchCheckJava \<in> set ?es
      \<longleftrightarrow> (\<exists>n \<le> nat retries. config_ok (backend (k + n)))"
    by simp
  have le: "count_list ?es FetchCheckJava \<le> 1"
    by (simp add: c)
  have inl: "\<not> config_ok r \<longleftrightarrow> (\<exists>e. read_config r st = Inl e)"
    using read_config_Inr_iff [of r st] by (cases "read_config r st") auto
  show ?thesis
    using iff le inl read_config_Inr_iff [of r st] by simp
qed

theorem checkJava_iff_fetch_succeeds_witness:
  "FetchCheckJava \<in> set (fst (fetchBackendData
       (\<lambda>k. if k = 2
             then Response True (Json (Some \<lparr>accounts = Some [], last_selected_uuid = None,
                                             game_settings = None\<rparr>))
             else Rejected)
       (Response True BadJson) 0 5 500 initial_home)) \<and>
   FetchCheckJava \<notin> set (fst (fetchBackendData (\<lambda>k. Rejected) (Response True BadJson)
       0 5 500 initial_home))"
proof -
  let ?b = "\<lambda>k::nat. if k = 2
             then Response True (Json (Some \<lparr>accounts = Some [], last_selected_uuid = None,
                                             game_settings = None\<rparr>))
             else Rejected"
  have "config_ok (?b (0 + 2))" by (simp add: config_ok_def)
  then have ex: "\<exists>n \<le> nat 5. config_ok (?b (0 + n))"
    by (intro exI [of _ 2]) simp
  have no: "\<not> (\<exists>n \<le> nat 5. config_ok ((\<lambda>k. Rejected) (0 + n)))"
    by (simp add: config_ok_def)
  show ?thesis
    using ex no
      checkJava_iff_fetch_succeeds [of ?b "Response True BadJson" 0 5 500 initial_home]
      checkJava_iff_fetch_succeeds [of "\<lambda>k. Rejected" "Response True BadJson" 0 5 500 initial_home]
    by blast
qed

text \<open>
  C10: after a successful fetch of the configuration the accounts of the state are
  the fetched ones. If the list is not empty, the selected account is an account of
  the list whose uuid equals \<open>last_selected_uuid\<close> when there is one (the account,
  when uuids are distinct), and the first account of the list otherwise. If the list
  is empty the selection is null. The selection is always an account of the list.
\<close>

theorem selected_account_after_fetch:
  assumes "n \<le> nat retries"
    and "\<forall>j < n. \<not> config_ok (backend (k + j))"
    and "backend (k + n) = Response True (Json (Some config))"
    and "accounts config = Some accs"
    and "st' = snd (fetchBackendData backend javaRes k retries delay st)"
  shows "home_accounts st' = accs \<and>
         launcherConfig st' = Some config \<and>
         (accs = [] \<longrightarrow> selectedAccount st' = None) \<and>
         (\<forall>a \<in> set accs. Some (uuid a) = last_selected_uuid config \<longrightarrow>
            (\<exists>b \<in> set accs. selectedAccount st' = Some b \<and>
                             Some (uuid b) = last_selected_uuid config)) \<and>
         (distinct (map uuid accs) \<longrightarrow>
            (\<forall>a \<in> set accs. Some (uuid a) = last_selected_uuid config \<longrightarrow>
               selectedAccount st' = Some a)) \<and>
         (accs \<noteq> [] \<longrightarrow> (\<forall>a \<in> set accs. Some (uuid a) \<noteq> last_selected_uuid config) \<longrightarrow>
            selectedAccount st' = Some (hd accs)) \<and>
         (\<forall>b. selectedAccount st' = Some b \<longrightarrow> b \<in> set accs)"
proof -
  let ?u = "last_selected_uuid config"
  let ?st1 = "st\<lparr>launcherConfig := Some config, home_accounts := accs,
                   selectedAccount := select_account accs ?u\<rparr>"
  have rc: "read_config (backend (k + n)) st = Inr ?st1"
    using assms(3,4) by (simp add: read_config_def)
  from fetchBackendData_first_success [OF assms(1,2) rc, of javaRes delay] assms(5)
  have st': "st' = snd (checkJavaVersion javaRes ?st1)" by simp
  have sel: "selectedAccount st' = select_account accs ?u"
    and acc: "home_accounts st' = accs"
    and cfg: "launcherConfig st' = Some config"
    using checkJavaVersion_frame [of javaRes ?st1] by (simp_all add: st')
  note cases = select_account_cases [of accs ?u, folded sel]
  have dist: "distinct (map uuid accs) \<longrightarrow>
      (\<forall>a \<in> set accs. Some (uuid a) = ?u \<longrightarrow> selectedAccount st' = Some a)"
    using select_account_distinct [of accs _ ?u] sel by simp
  from cases have c1: "accs = [] \<longrightarrow> selectedAccount st' = None"
    and c2: "\<forall>a \<in> set accs. Some (uuid a) = ?u \<longrightarrow>
      (\<exists>b \<in> set accs. selectedAccount st' = Some b \<and> Some (uuid b) = ?u)"
    and c3: "accs \<noteq> [] \<longrightarrow> (\<forall>a \<in> set accs. Some (uuid a) \<noteq> ?u) \<longrightarrow>
      selectedAccount st' = Some (hd accs)"
    and c4: "\<forall>b. selectedAccount st' = Some b \<longrightarrow> b \<in> set accs"
    by simp_all
  from acc cfg c1 c2 dist c3 c4 show ?thesis
    by (intro conjI)
qed

theorem selected_account_after_fetch_witness:
  "selectedAccount (snd (fetchBackendData
       (\<lambda>k. Response True (Json (Some
          \<lparr>accounts = Some [\<lparr>uuid = [0x61], username = [0x41], accessToken = [], clientToken = []\<rparr>,
                             \<lparr>uuid = [0x62], username = [0x42], accessToken = [], clientToken = []\<rparr>],
           last_selected_uuid = Some [0x62], game_settings = None\<rparr>)))
       Rejected 0 5 500 initial_home))
     = Some \<lparr>uuid = [0x62], username = [0x42], accessToken = [], clientToken = []\<rparr>"
proof -
  let ?accs = "[\<lparr>uuid = [0x61], username = [0x41], accessToken = [], clientToken = []\<rparr>,
                \<lparr>uuid = [0x62], username = [0x42], accessToken = [], clientToken = []\<rparr>]"
  let ?cfg = "\<lparr>accounts = Some ?accs, last_selected_uuid = Some [0x62], game_settings = None\<rparr>"
  let ?b = "\<lambda>k::nat. Response True (Json (Some ?cfg))"
  have h1: "0 \<le> nat 5" by simp
  have h2: "\<forall>j < 0. \<not> config_ok (?b (0 + j))" by simp
  have h3: "?b (0 + 0) = Response True (Json (Some ?cfg))" by simp
  have h4: "accounts ?cfg = Some ?accs" by simp
  from selected_account_after_fetch [of 0 5 ?b 0 ?cfg ?accs _ Rejected 500 initial_home,
      OF h1 h2 h3 h4 refl]
  show ?thesis by simp
qed

section \<open>Saving the settings: the confirmation loop\<close>

lemma confirm_loop_end:
  "\<not> i < 5 \<Longrightarrow> confirm_loop reads dir i = ([], Inr False)"
  by (subst confirm_loop.simps) simp

lemma confirm_loop_without:
  "i < 5 \<Longrightarrow> answers_without dir (reads i) \<Longrightarrow>
   confirm_loop reads dir i = emit [GetConfig, Sleep 200] (confirm_loop reads dir (i + 1))"
  by (subst confirm_loop.simps)
    (auto simp: answers_without_def split: fetch_result.splits json.splits)

lemma confirm_loop_echoes:
  "i < 5 \<Longrightarrow> echoes dir (reads i) \<Longrightarrow> confirm_loop reads dir i = ([GetConfig], Inr True)"
  by (subst confirm_loop.simps)
    (auto simp: echoes_def split: fetch_result.splits json.splits bool.splits)

lemma confirm_loop_throws:
  "i < 5 \<Longrightarrow> read_throws (reads i) \<Longrightarrow>
   \<exists>e. confirm_loop reads dir i = ([GetConfig], Inl e)"
  by (subst confirm_loop.simps)
    (auto simp: read_throws_def split: fetch_result.splits json.splits)

text \<open>The loop from \<open>i\<close> when the re-reads \<open>i, ..., i + n - 1\<close> answer without the value.\<close>

lemma confirm_loop_prefix:
  "i + n \<le> 5 \<Longrightarrow> \<forall>j < n. answers_without dir (reads (i + j)) \<Longrightarrow>
   confirm_loop reads dir i
     = emit (concat (replicate n [GetConfig, Sleep 200])) (confirm_loop reads dir (i + n))"
proof (induction n arbitrary: i)
  case 0
  show ?case by (simp add: emit_def)
next
  case (Suc n)
  from Suc.prems have i: "i < 5" and first: "answers_without dir (reads i)"
    by (simp, metis add.right_neutral zero_less_Suc)
  have rest: "\<forall>j < n. answers_without dir (reads (Suc i + j))"
  proof (intro allI impI)
    fix j assume "j < n"
    then have "Suc j < Suc n" by simp
    with Suc.prems(2) have "answers_without dir (reads (i + Suc j))" by blast
    then show "answers_without dir (reads (Suc i + j))" by simp
  qed
  from Suc.prems(1) have "Suc i + n \<le> 5" by simp
  from Suc.IH [OF this rest] show ?case
    by (simp add: confirm_loop_without [where reads = reads, OF i first] emit_def)
qed

lemma count_rereads_prefix:
  "count_list (concat (replicate n [GetConfig, Sleep 200])) GetConfig = n"
  by (induction n) simp_all

lemma set_rereads_prefix:
  "set (concat (replicate n [GetConfig, Sleep 200])) \<subseteq> {GetConfig, Sleep 200}"
  by (induction n) auto

lemma save_never_echoed:
  assumes "truthy (Some dir)" "data_game_directory settingsData = Some dir"
    and "\<forall>i < 5. answers_without dir (reads i)"
  shows "handleSaveSettings Key_game_settings settingsData (Response True b) reads st
           = PostConfig Key_game_settings settingsData
               # concat (replicate 5 [GetConfig, Sleep 200]) @ [ToastError]"
proof -
  have "\<forall>j < 5. answers_without dir (reads (0 + j))"
    using assms(3) by simp
  from confirm_loop_prefix [where reads = reads, of 0 5 dir, OF _ this]
  have "confirm_loop reads dir 0 = (concat (replicate 5 [GetConfig, Sleep 200]), Inr False)"
    by (simp add: confirm_loop_end emit_def)
  then show ?thesis
    using assms(1,2) by (simp add: handleSaveSettings_def save_settings_try_def)
qed

lemma save_echoed_at:
  assumes "truthy (Some dir)" "data_game_directory settingsData = Some dir"
    and "k < 5" "\<forall>i < k. answers_without dir (reads i)" "echoes dir (reads k)"
  shows "handleSaveSettings Key_game_settings settingsData (Response True b) reads st
           = PostConfig Key_game_settings settingsData
               # concat (replicate k [GetConfig, Sleep 200])
               @ [GetConfig, ToastSuccess]
               @ (if data_enable_logs settingsData \<noteq> Some (enable_logs (initialGameSettings st))
                  then [ToastRestart] else [])
               @ [OnSettingsChange]"
proof -
  have "\<forall>j < k. answers_without dir (reads (0 + j))"
    using assms(4) by simp
  from confirm_loop_prefix [where reads = reads, of 0 k dir, OF _ this] assms(3)
  have "confirm_loop reads dir 0
      = emit (concat (replicate k [GetConfig, Sleep 200])) (confirm_loop reads dir k)"
    by simp
  also have "confirm_loop reads dir k = ([GetConfig], Inr True)"
    using assms(3,5) by (rule confirm_loop_echoes)
  finally have "confirm_loop reads dir 0
      = (concat (replicate k [GetConfig, Sleep 200]) @ [GetConfig], Inr True)"
    by (simp add: emit_def)
  then show ?thesis
    using assms(1,2) by (simp add: handleSaveSettings_def save_settings_try_def)
qed

lemma save_read_throws_at:
  assumes "truthy (Some dir)" "data_game_directory settingsData = Some dir"
    and "k < 5" "\<forall>i < k. answers_without dir (reads i)" "read_throws (reads k)"
  shows "handleSaveSettings Key_game_settings settingsData (Response True b) reads st
           = PostConfig Key_game_settings settingsData
               # concat (replicate k [GetConfig, Sleep 200]) @ [GetConfig, ToastError]"
proof -
  have "\<forall>j < k. answers_without dir (reads (0 + j))"
    using assms(4) by simp
  from confirm_loop_prefix [where reads = reads, of 0 k dir, OF _ this] assms(3)
  have start: "confirm_loop reads dir 0
      = emit (concat (replicate k [GetConfig, Sleep 200])) (confirm_loop reads dir k)"
    by simp
  from confirm_loop_throws [where reads = reads, OF assms(3,5), of dir]
  obtain e where "confirm_loop reads dir k = ([GetConfig], Inl e)" by blast
  with start have "confirm_loop reads dir 0
      = (concat (replicate k [GetConfig, Sleep 200]) @ [GetConfig], Inl e)"
    by (simp add: emit_def)
  then show ?thesis
    using assms(1,2) by (simp add: handleSaveSettings_def save_settings_try_def)
qed

text \<open>With no directory in the data the loop is skipped and a 2xx write is a success.\<close>

lemma save_without_directory:
  assumes "\<not> truthy (data_game_directory settingsData)"
  shows "handleSaveSettings settingsKey settingsData (Response True b) reads st
           = PostConfig settingsKey settingsData # ToastSuccess
               # (if settingsKey = Key_game_settings \<and>
                     data_enable_logs settingsData \<noteq> Some (enable_logs (initialGameSettings st))
                  then [ToastRestart] else [])
               @ [OnSettingsChange]"
  using assms by (simp add: handleSaveSettings_def save_settings_try_def)

lemma prefix_observations:
  "ToastError \<notin> set (concat (replicate n [GetConfig, Sleep 200]))"
  "ToastSuccess \<notin> set (concat (replicate n [GetConfig, Sleep 200]))"
  "OnSettingsChange \<notin> set (concat (replicate n [GetConfig, Sleep 200]))"
  using set_rereads_prefix [of n] by auto

text \<open>
  C2, as the code has it: for every save of \<open>game_settings\<close> with a
  \<open>game_directory\<close> that is not empty, once the write has returned 2xx the handler
  re-reads the configuration at most five times and waits 200 ms after every re-read
  that does not carry the written directory. It succeeds as soon as one re-read
  carries it. If all five re-reads are answered and none carries it, the save fails
  after exactly five re-reads, in spite of the 2xx of the write. A re-read that
  throws (a rejected fetch, a body that does not parse) fails the save at once.
\<close>

theorem save_confirmation_loop:
  assumes "data_game_directory settingsData = Some dir" and "dir \<noteq> []"
  shows "((\<forall>i < 5. answers_without dir (reads i)) \<longrightarrow>
            handleSaveSettings Key_game_settings settingsData (Response True b) reads st
              = PostConfig Key_game_settings settingsData
                  # concat (replicate 5 [GetConfig, Sleep 200]) @ [ToastError] \<and>
            rereads (handleSaveSettings Key_game_settings settingsData (Response True b) reads st)
              = 5 \<and>
            save_failed
              (handleSaveSettings Key_game_settings settingsData (Response True b) reads st)) \<and>
         (\<forall>k < 5. (\<forall>i < k. answers_without dir (reads i)) \<and> echoes dir (reads k) \<longrightarrow>
            handleSaveSettings Key_game_settings settingsData (Response True b) reads st
              = PostConfig Key_game_settings settingsData
                  # concat (replicate k [GetConfig, Sleep 200])
                  @ [GetConfig, ToastSuccess]
                  @ (if data_enable_logs settingsData
                          \<noteq> Some (enable_logs (initialGameSettings st))
                     then [ToastRestart] else [])
                  @ [OnSettingsChange] \<and>
            rereads (handleSaveSettings Key_game_settings settingsData (Response True b) reads st)
              = Suc k \<and>
            save_succeeded
              (handleSaveSettings Key_game_settings settingsData (Response True b) reads st)) \<and>
         (\<forall>k < 5. (\<forall>i < k. answers_without dir (reads i)) \<and> read_throws (reads k) \<longrightarrow>
            handleSaveSettings Key_game_settings settingsData (Response True b) reads st
              = PostConfig Key_game_settings settingsData
                  # concat (replicate k [GetConfig, Sleep 200]) @ [GetConfig, ToastError] \<and>
            rereads (handleSaveSettings Key_game_settings settingsData (Response True b) reads st)
              = Suc k \<and>
            save_failed
              (handleSaveSettings Key_game_settings settingsData (Response True b) reads st))"
proof -
  let ?es = "handleSaveSettings Key_game_settings settingsData (Response True b) reads st"
  from assms(2) have t: "truthy (Some dir)" by simp
  have never: "?es = PostConfig Key_game_settings settingsData
        # concat (replicate 5 [GetConfig, Sleep 200]) @ [ToastError] \<and>
      rereads ?es = 5 \<and> save_failed ?es"
    if "\<forall>i < 5. answers_without dir (reads i)"
  proof -
    note eq = save_never_echoed [OF t assms(1) that, of b st]
    show ?thesis
      by (simp only: eq)
        (simp add: rereads_def save_failed_def count_rereads_prefix prefix_observations)
  qed
  have echoed: "?es = PostConfig Key_game_settings settingsData
        # concat (replicate k [GetConfig, Sleep 200])
        @ [GetConfig, ToastSuccess]
        @ (if data_enable_logs settingsData \<noteq> Some (enable_logs (initialGameSettings st))
           then [ToastRestart] else [])
        @ [OnSettingsChange] \<and>
      rereads ?es = Suc k \<and> save_succeeded ?es"
    if "k < 5" "\<forall>i < k. answers_without dir (reads i)" "echoes dir (reads k)" for k
  proof -
    note eq = save_echoed_at [OF t assms(1) that, of b st]
    show ?thesis
      by (simp only: eq)
        (simp add: rereads_def save_succeeded_def count_rereads_prefix prefix_observations)
  qed
  have thrown: "?es = PostConfig Key_game_settings settingsData
        # concat (replicate k [GetConfig, Sleep 200]) @ [GetConfig, ToastError] \<and>
      rereads ?es = Suc k \<and> save_failed ?es"
    if "k < 5" "\<forall>i < k. answers_without dir (reads i)" "read_throws (reads k)" for k
  proof -
    note eq = save_read_throws_at [OF t assms(1) that, of b st]
    show ?thesis
      by (simp only: eq)
        (simp add: rereads_def save_failed_def count_rereads_prefix prefix_observations)
  qed
  from never echoed thrown show ?thesis by blast
qed

theorem save_confirmation_loop_witness:
  "handleSaveSettings Key_game_settings
      (GameData \<lparr>server_address = [], enable_logs = False, game_directory = [0x2F, 0x67]\<rparr>)
      (Response True BadJson) (\<lambda>i. Response False BadJson) initial_dialog
     = [PostConfig Key_game_settings
          (GameData \<lparr>server_address = [], enable_logs = False, game_directory = [0x2F, 0x67]\<rparr>),
        GetConfig, Sleep 200, GetConfig, Sleep 200, GetConfig, Sleep 200,
        GetConfig, Sleep 200, GetConfig, Sleep 200, ToastError]"
proof -
  let ?d = "GameData \<lparr>server_address = [], enable_logs = False, game_directory = [0x2F, 0x67]\<rparr>"
  have h1: "data_game_directory ?d = Some [0x2F, 0x67]" by simp
  have h2: "[0x2F, 0x67] \<noteq> ([] :: js_string)" by simp
  have h3: "\<forall>i < 5. answers_without [0x2F, 0x67] ((\<lambda>i. Response False BadJson) i)"
    by (simp add: answers_without_def)
  from save_confirmation_loop [OF h1 h2, of "\<lambda>i. Response False BadJson" BadJson initial_dialog] h3
  have "handleSaveSettings Key_game_settings ?d (Response True BadJson)
          (\<lambda>i. Response False BadJson) initial_dialog
        = PostConfig Key_game_settings ?d # concat (replicate 5 [GetConfig, Sleep 200]) @ [ToastError]"
    by blast
  then show ?thesis
    by (simp add: eval_nat_numeral)
qed

text \<open>
  The claim C2 has exactly five re-reads for every save whose directory the backend
  never echoes. A backend that rejects the first re-read never echoes, and the save
  fails after one re-read; a save of \<open>game_settings\<close> with an empty directory is past
  the guard of the loop, makes no re-read and succeeds.
\<close>

theorem save_rereads_counterexample:
  "rereads (handleSaveSettings Key_game_settings
      (GameData \<lparr>server_address = [], enable_logs = False, game_directory = [0x2F, 0x67]\<rparr>)
      (Response True BadJson) (\<lambda>i. Rejected) initial_dialog) = 1 \<and>
   rereads (handleSaveSettings Key_game_settings
      (GameData \<lparr>server_address = [], enable_logs = False, game_directory = []\<rparr>)
      (Response True BadJson) (\<lambda>i. Response True (Json None)) initial_dialog) = 0 \<and>
   save_succeeded (handleSaveSettings Key_game_settings
      (GameData \<lparr>server_address = [], enable_logs = False, game_directory = []\<rparr>)
      (Response True BadJson) (\<lambda>i. Response True (Json None)) initial_dialog)"
  by (simp add: handleSaveSettings_def save_settings_try_def confirm_loop.simps
      rereads_def save_succeeded_def initial_dialog_def)

section \<open>The error classifier on every status text\<close>

lemma includes_str_map:
  assumes "includes_str s p"
  shows "includes_str (map f s) (map f p)"
proof -
  from assms obtain ps ss where "s = ps @ p @ ss"
    by (auto simp: includes_sublist sublist_def)
  then have "map f s = map f ps @ map f p @ map f ss" by simp
  then show ?thesis
    unfolding includes_sublist sublist_def by blast
qed

lemma includes_str_trans:
  assumes "includes_str s p" "includes_str p q"
  shows "includes_str s q"
proof -
  from assms obtain ps ss qs rs where "s = ps @ p @ ss" "p = qs @ q @ rs"
    by (auto simp: includes_sublist sublist_def)
  then have "s = (ps @ qs) @ q @ (rs @ ss)" by simp
  then show ?thesis
    unfolding includes_sublist sublist_def by blast
qed

lemma marker_phrase_has_java:
  "includes_str (toLowerCase str_trebuetsya_Java) str_java"
  by (simp add: toLowerCase_def toLowerCase_unit_def str_trebuetsya_Java_def str_java_def)

lemma trebuetsya_Java_is_java:
  assumes "includes_str s str_trebuetsya_Java"
  shows "isRealError s \<and> includes_str (toLowerCase s) str_java"
proof
  show "isRealError s"
    using assms by (simp add: isRealError_def)
  have "includes_str (toLowerCase s) (toLowerCase str_trebuetsya_Java)"
    unfolding toLowerCase_def using assms by (rule includes_str_map)
  then show "includes_str (toLowerCase s) str_java"
    using marker_phrase_has_java by (rule includes_str_trans)
qed

text \<open>
  C4, as the code has it: a status text is a java-environment error, shown in the
  persistent Java modal, exactly when it matches a recognized error marker and
  contains \<open>java\<close> in any letter case; so is every text with the marker phrase
  "trebuetsya Java". A text that matches a marker and has no \<open>java\<close> is a generic
  error. A text that matches no marker is informational and raises no alert, whether
  it names Java or not.
\<close>

theorem classify_marker_then_java:
  "(classify s = JavaEnvironment
      \<longleftrightarrow> isRealError s \<and> includes_str (toLowerCase s) str_java) \<and>
   (classify s = GenericError
      \<longleftrightarrow> isRealError s \<and> \<not> includes_str (toLowerCase s) str_java) \<and>
   (classify s = Informational \<longleftrightarrow> \<not> isRealError s) \<and>
   (includes_str s str_trebuetsya_Java \<longrightarrow> classify s = JavaEnvironment) \<and>
   (classify s = JavaEnvironment \<longleftrightarrow> status_effect s = JavaModal s) \<and>
   (classify s = Informational \<longleftrightarrow> status_effect s = NoAlert)"
proof -
  have phrase: "classify s = JavaEnvironment" if "includes_str s str_trebuetsya_Java"
    using trebuetsya_Java_is_java [OF that] by (simp add: classify_def status_effect_def)
  show ?thesis
    using phrase by (simp add: classify_def status_effect_def)
qed

theorem classify_marker_then_java_witness:
  "includes_str [0x442, 0x440, 0x435, 0x431, 0x443, 0x435, 0x442, 0x441, 0x44F, 0x20,
                 0x4A, 0x61, 0x76, 0x61, 0x21] str_trebuetsya_Java \<and>
   classify [0x442, 0x440, 0x435, 0x431, 0x443, 0x435, 0x442, 0x441, 0x44F, 0x20,
             0x4A, 0x61, 0x76, 0x61, 0x21] = JavaEnvironment"
proof -
  have h: "includes_str [0x442, 0x440, 0x435, 0x431, 0x443, 0x435, 0x442, 0x441, 0x44F, 0x20,
                 0x4A, 0x61, 0x76, 0x61, 0x21] str_trebuetsya_Java"
    by (simp add: str_trebuetsya_Java_def)
  show ?thesis
    using h classify_marker_then_java
      [of "[0x442, 0x440, 0x435, 0x431, 0x443, 0x435, 0x442, 0x441, 0x44F, 0x20,
            0x4A, 0x61, 0x76, 0x61, 0x21]"]
    by blast
qed

text \<open>
  The claim C4 makes every status text with a Java phrase a java-environment error.
  "Proverka Java" (Cyrillic, "Checking Java") contains \<open>Java\<close>, matches no error
  marker, and is informational: the test for the markers comes first.
\<close>

theorem classify_java_phrase_counterexample:
  "includes_str [0x41F, 0x440, 0x43E, 0x432, 0x435, 0x440, 0x43A, 0x430, 0x20,
                 0x4A, 0x61, 0x76, 0x61] [0x4A, 0x61, 0x76, 0x61] \<and>
   includes_str (toLowerCase [0x41F, 0x440, 0x43E, 0x432, 0x435, 0x440, 0x43A, 0x430, 0x20,
                              0x4A, 0x61, 0x76, 0x61]) str_java \<and>
   classify [0x41F, 0x440, 0x43E, 0x432, 0x435, 0x440, 0x43A, 0x430, 0x20,
             0x4A, 0x61, 0x76, 0x61] = Informational \<and>
   status_effect [0x41F, 0x440, 0x43E, 0x432, 0x435, 0x440, 0x43A, 0x430, 0x20,
                  0x4A, 0x61, 0x76, 0x61] = NoAlert"
  by (simp add: classify_def status_effect_def isRealError_def toLowerCase_def
      toLowerCase_unit_def str_Oshibka_colon_def str_Error_colon_def
      str_trebuetsya_Java_def str_ne_naidena_def str_ne_udalos_def
      str_Obnaruzheny_izmeneniya_def str_java_def)

section \<open>The game-directory derivations compared\<close>

lemma includes_str_single: "includes_str s [c] \<longleftrightarrow> c \<in> set s"
  by (induction s) auto

lemma endsWith_single: "endsWith s [c] \<longleftrightarrow> (case rev s of [] \<Rightarrow> False | d # ds \<Rightarrow> d = c)"
  by (cases "rev s") (simp_all add: endsWith_def)

lemma no_trailing_sep_endsWith:
  "no_trailing_sep s \<Longrightarrow> \<not> (endsWith s [backslash] \<or> endsWith s [slash])"
  by (cases "rev s") (auto simp: no_trailing_sep_def endsWith_single is_sep_def)

lemma strip_no_trailing_sep: "no_trailing_sep s \<Longrightarrow> strip_trailing_seps s = s"
proof (cases "rev s")
  case Nil
  then show ?thesis by (simp add: strip_trailing_seps_def)
next
  case (Cons c cs)
  assume "no_trailing_sep s"
  with Cons have "\<not> is_sep c" by (simp add: no_trailing_sep_def)
  with Cons have "rev (dropWhile is_sep (rev s)) = rev (rev s)" by simp
  then show ?thesis by (simp add: strip_trailing_seps_def)
qed

lemma no_trailing_sep_strip: "no_trailing_sep (strip_trailing_seps s)"
proof -
  have unfold: "no_trailing_sep (strip_trailing_seps s)
      = (case dropWhile is_sep (rev s) of [] \<Rightarrow> True | c # cs \<Rightarrow> \<not> is_sep c)"
    by (simp add: strip_trailing_seps_def no_trailing_sep_def)
  show ?thesis
  proof (cases "dropWhile is_sep (rev s)")
    case Nil
    show ?thesis by (simp only: unfold Nil list.case)
  next
    case (Cons c cs)
    then have "\<not> is_sep c"
      using hd_dropWhile [of is_sep "rev s"] by simp
    then show ?thesis by (simp add: unfold Cons)
  qed
qed

lemma no_trailing_sep_name: "no_trailing_sep (xs @ str_Kristory_Client)"
  by (simp add: no_trailing_sep_def str_Kristory_Client_def is_sep_def backslash_def slash_def)

lemma canonical_names:
  "map canonicalize str_Kristory_Client = map canonicalize str_kristory_client"
  by (simp add: str_Kristory_Client_def str_kristory_client_def canonicalize_def)

lemma test_kristory_client_append: "test_kristory_client (xs @ str_Kristory_Client @ ys)"
proof -
  have "sublist (map canonicalize str_kristory_client)
          (map canonicalize xs @ map canonicalize str_kristory_client @ map canonicalize ys)"
    by (rule sublist_appendI)
  then show ?thesis
    by (simp add: test_kristory_client_def includes_sublist canonical_names)
qed

lemma test_kristory_client_name_last: "test_kristory_client (xs @ sep @ str_Kristory_Client)"
  using test_kristory_client_append [of "xs @ sep" "[]"] by simp

lemma finalPath_download_cases:
  "finalPath_download p =
     (if test_kristory_client (strip_trailing_seps p) then strip_trailing_seps p
      else strip_trailing_seps p
             @ [if backslash \<in> set (strip_trailing_seps p) then backslash else slash]
             @ str_Kristory_Client)"
  by (simp add: finalPath_download_def Let_def includes_str_single)

lemma finalPath_download_fixed:
  "no_trailing_sep q \<Longrightarrow> test_kristory_client q \<Longrightarrow> finalPath_download q = q"
  by (simp add: finalPath_download_cases strip_no_trailing_sep)

lemma finalPath_download_shape:
  "no_trailing_sep (finalPath_download p) \<and> test_kristory_client (finalPath_download p)"
proof (cases "test_kristory_client (strip_trailing_seps p)")
  case True
  then show ?thesis
    by (simp add: finalPath_download_cases no_trailing_sep_strip)
next
  case False
  let ?sep = "[if backslash \<in> set (strip_trailing_seps p) then backslash else slash]"
  have "no_trailing_sep ((strip_trailing_seps p @ ?sep) @ str_Kristory_Client)"
    by (rule no_trailing_sep_name)
  moreover have "test_kristory_client (strip_trailing_seps p @ ?sep @ str_Kristory_Client)"
    by (rule test_kristory_client_name_last)
  ultimately show ?thesis
    using False by (simp add: finalPath_download_cases)
qed

lemma finalPath_download_idem:
  "finalPath_download (finalPath_download p) = finalPath_download p"
  using finalPath_download_shape [of p] by (simp add: finalPath_download_fixed)

lemma test_kristory_client_nonempty: "test_kristory_client q \<Longrightarrow> q \<noteq> []"
  by (auto simp: test_kristory_client_def str_kristory_client_def)

lemma handleDownloadClick_directory_idem:
  "handleDownloadClick_directory (handleDownloadClick_directory picked)
     = handleDownloadClick_directory picked"
proof (cases picked)
  case None
  then show ?thesis by (simp add: handleDownloadClick_directory_def)
next
  case (Some p)
  have "finalPath_download p \<noteq> []"
    using finalPath_download_shape [of p] by (simp add: test_kristory_client_nonempty)
  with Some show ?thesis
    by (simp add: handleDownloadClick_directory_def finalPath_download_idem)
qed

lemma name_then_boundary_name: "name_then_boundary str_Kristory_Client"
  by (simp add: name_then_boundary_def str_Kristory_Client_def)

lemma component_after_sep_append:
  "is_sep c \<Longrightarrow> name_then_boundary cs \<Longrightarrow> component_after_sep (xs @ c # cs)"
  by (induction xs) simp_all

lemma test_component_appended:
  "is_sep c \<Longrightarrow> test_component (xs @ [c] @ str_Kristory_Client)"
  using component_after_sep_append [of c str_Kristory_Client xs]
  by (simp add: test_component_def name_then_boundary_name)

lemma test_kristory_client_Cons:
  "test_kristory_client cs \<Longrightarrow> test_kristory_client (c # cs)"
  by (simp add: test_kristory_client_def)

lemma name_then_boundary_contains:
  "name_then_boundary s \<Longrightarrow> test_kristory_client s"
  by (simp add: name_then_boundary_def test_kristory_client_def includes_sublist
      startsWith_prefix canonical_names)

lemma component_after_sep_contains:
  "component_after_sep s \<Longrightarrow> test_kristory_client s"
  by (induction s) (auto intro: test_kristory_client_Cons name_then_boundary_contains)

lemma test_component_contains: "test_component p \<Longrightarrow> test_kristory_client p"
  by (auto simp: test_component_def
      intro: name_then_boundary_contains component_after_sep_contains)

lemma finalPath_settings_cases:
  "no_trailing_sep p \<Longrightarrow>
   finalPath_settings p =
     (if test_component p then p
      else p @ [if backslash \<in> set p then backslash else slash] @ str_Kristory_Client)"
  by (simp add: finalPath_settings_def strip_no_trailing_sep no_trailing_sep_endsWith
      includes_str_single)

lemma finalPath_settings_component:
  "no_trailing_sep p \<Longrightarrow> test_component (finalPath_settings p)"
proof (cases "test_component p")
  case True
  then show ?thesis by (simp add: finalPath_settings_def)
next
  case False
  assume "no_trailing_sep p"
  have "is_sep (if backslash \<in> set p then backslash else slash)"
    by (simp add: is_sep_def)
  from test_component_appended [OF this, of p] False \<open>no_trailing_sep p\<close>
  show ?thesis by (simp add: finalPath_settings_cases)
qed

lemma finalPath_settings_idem:
  "no_trailing_sep p \<Longrightarrow> finalPath_settings (finalPath_settings p) = finalPath_settings p"
  using finalPath_settings_component [of p] by (simp add: finalPath_settings_def)

lemma derivations_agree:
  assumes "no_trailing_sep p" and "test_kristory_client p \<longrightarrow> test_component p"
  shows "finalPath_download p = finalPath_settings p"
proof (cases "test_component p")
  case True
  then have "test_kristory_client p" by (rule test_component_contains)
  with True assms(1) show ?thesis
    by (simp add: finalPath_download_cases finalPath_settings_cases strip_no_trailing_sep)
next
  case False
  with assms(2) have "\<not> test_kristory_client p" by blast
  with False assms(1) show ?thesis
    by (simp add: finalPath_download_cases finalPath_settings_cases strip_no_trailing_sep)
qed

text \<open>
  C8, as the code has it. The derivation of \<open>handleDownloadClick\<close> strips the
  trailing separators and yields a path that contains "Kristory Client" in any letter
  case: the stripped path itself when it already contains the name, otherwise the
  stripped path, a separator (a backslash when the stripped path has one, a slash
  otherwise) and "Kristory Client"; it is idempotent. The derivation of
  \<open>handleSelectGameDirectory\<close> keeps a path that has the name as a whole path
  component; to a path with no such component and no trailing separator it appends
  a separator of the path's style and "Kristory Client", and on paths with no
  trailing separator its result has the name as a component and it is idempotent.
  The two derivations agree on every path with no trailing separator that contains
  the name only as a whole component.
\<close>

theorem game_directory_derivations:
  "test_kristory_client (finalPath_download p) \<and>
   (test_kristory_client (strip_trailing_seps p) \<longrightarrow>
      finalPath_download p = strip_trailing_seps p) \<and>
   (\<not> test_kristory_client (strip_trailing_seps p) \<longrightarrow>
      finalPath_download p
        = strip_trailing_seps p
            @ [if backslash \<in> set (strip_trailing_seps p) then backslash else slash]
            @ str_Kristory_Client) \<and>
   finalPath_download (finalPath_download p) = finalPath_download p \<and>
   handleDownloadClick_directory (handleDownloadClick_directory picked)
     = handleDownloadClick_directory picked \<and>
   (test_component p \<longrightarrow> finalPath_settings p = p \<and> test_kristory_client p) \<and>
   (\<not> test_component p \<and> no_trailing_sep p \<longrightarrow>
      finalPath_settings p
        = p @ [if backslash \<in> set p then backslash else slash] @ str_Kristory_Client) \<and>
   (no_trailing_sep p \<longrightarrow>
      test_component (finalPath_settings p) \<and>
      test_kristory_client (finalPath_settings p) \<and>
      finalPath_settings (finalPath_settings p) = finalPath_settings p) \<and>
   (no_trailing_sep p \<and> (test_kristory_client p \<longrightarrow> test_component p) \<longrightarrow>
      finalPath_download p = finalPath_settings p)"
proof (intro conjI impI)
  show "test_kristory_client (finalPath_download p)"
    using finalPath_download_shape [of p] by simp
  show "finalPath_download p = strip_trailing_seps p"
    if "test_kristory_client (strip_trailing_seps p)"
    using that by (simp add: finalPath_download_cases)
  show "finalPath_download p
      = strip_trailing_seps p
          @ [if backslash \<in> set (strip_trailing_seps p) then backslash else slash]
          @ str_Kristory_Client"
    if "\<not> test_kristory_client (strip_trailing_seps p)"
    using that by (simp add: finalPath_download_cases)
  show "finalPath_download (finalPath_download p) = finalPath_download p"
    by (rule finalPath_download_idem)
  show "handleDownloadClick_directory (handleDownloadClick_directory picked)
      = handleDownloadClick_directory picked"
    by (rule handleDownloadClick_directory_idem)
  show "finalPath_settings p = p" if "test_component p"
    using that by (simp add: finalPath_settings_def)
  show "test_kristory_client p" if "test_component p"
    using that by (rule test_component_contains)
  show "finalPath_settings p
      = p @ [if backslash \<in> set p then backslash else slash] @ str_Kristory_Client"
    if "\<not> test_component p \<and> no_trailing_sep p"
    using that by (simp add: finalPath_settings_cases)
  show "test_component (finalPath_settings p)" if "no_trailing_sep p"
    using that by (rule finalPath_settings_component)
  show "test_kristory_client (finalPath_settings p)" if "no_trailing_sep p"
    using that by (intro test_component_contains finalPath_settings_component)
  show "finalPath_settings (finalPath_settings p) = finalPath_settings p" if "no_trailing_sep p"
    using that by (rule finalPath_settings_idem)
  show "finalPath_download p = finalPath_settings p"
    if "no_trailing_sep p \<and> (test_kristory_client p \<longrightarrow> test_component p)"
    using that by (intro derivations_agree) simp_all
qed

theorem game_directory_derivations_witness:
  "\<not> test_component [0x2F, 0x68, 0x6F, 0x6D, 0x65, 0x2F, 0x75] \<and>
   no_trailing_sep [0x2F, 0x68, 0x6F, 0x6D, 0x65, 0x2F, 0x75] \<and>
   finalPath_download [0x2F, 0x68, 0x6F, 0x6D, 0x65, 0x2F, 0x75]
     = [0x2F, 0x68, 0x6F, 0x6D, 0x65, 0x2F, 0x75, 0x2F, 0x4B, 0x72, 0x69, 0x73, 0x74, 0x6F, 0x72, 0x79, 0x20, 0x43, 0x6C, 0x69, 0x65, 0x6E, 0x74] \<and>
   finalPath_settings [0x2F, 0x68, 0x6F, 0x6D, 0x65, 0x2F, 0x75]
     = [0x2F, 0x68, 0x6F, 0x6D, 0x65, 0x2F, 0x75, 0x2F, 0x4B, 0x72, 0x69, 0x73, 0x74, 0x6F, 0x72, 0x79, 0x20, 0x43, 0x6C, 0x69, 0x65, 0x6E, 0x74]"
proof -
  have h1: "\<not> test_kristory_client (strip_trailing_seps [0x2F, 0x68, 0x6F, 0x6D, 0x65, 0x2F, 0x75])"
    by (simp add: finalPath_download_def finalPath_settings_def Let_def test_kristory_client_def test_component_def name_then_boundary_def strip_trailing_seps_def is_sep_def backslash_def slash_def canonicalize_def endsWith_def str_Kristory_Client_def str_kristory_client_def no_trailing_sep_def)
  have h2: "\<not> test_component [0x2F, 0x68, 0x6F, 0x6D, 0x65, 0x2F, 0x75] \<and> no_trailing_sep [0x2F, 0x68, 0x6F, 0x6D, 0x65, 0x2F, 0x75]"
    by (simp add: finalPath_download_def finalPath_settings_def Let_def test_kristory_client_def test_component_def name_then_boundary_def strip_trailing_seps_def is_sep_def backslash_def slash_def canonicalize_def endsWith_def str_Kristory_Client_def str_kristory_client_def no_trailing_sep_def)
  show ?thesis
    using h1 h2 game_directory_derivations [of "[0x2F, 0x68, 0x6F, 0x6D, 0x65, 0x2F, 0x75]" None]
    by (simp add: finalPath_download_def finalPath_settings_def Let_def test_kristory_client_def test_component_def name_then_boundary_def strip_trailing_seps_def is_sep_def backslash_def slash_def canonicalize_def endsWith_def str_Kristory_Client_def str_kristory_client_def no_trailing_sep_def)
qed

text \<open>
  The claim C8 keeps every path that contains the name and makes the two derivations
  agree everywhere. A path whose last component only ends in the name contains it and
  is kept by \<open>handleDownloadClick\<close>, while \<open>handleSelectGameDirectory\<close> appends the
  sub-folder; a path with the component and a trailing separator is kept as it is by
  \<open>handleSelectGameDirectory\<close> and stripped by \<open>handleDownloadClick\<close>.
\<close>

theorem game_directory_derivations_counterexample:
  "test_kristory_client [0x2F, 0x61, 0x2F, 0x78, 0x4B, 0x72, 0x69, 0x73, 0x74, 0x6F, 0x72, 0x79, 0x20, 0x43, 0x6C, 0x69, 0x65, 0x6E, 0x74] \<and>
   finalPath_settings [0x2F, 0x61, 0x2F, 0x78, 0x4B, 0x72, 0x69, 0x73, 0x74, 0x6F, 0x72, 0x79, 0x20, 0x43, 0x6C, 0x69, 0x65, 0x6E, 0x74]
     = [0x2F, 0x61, 0x2F, 0x78, 0x4B, 0x72, 0x69, 0x73, 0x74, 0x6F, 0x72, 0x79, 0x20, 0x43, 0x6C, 0x69, 0x65, 0x6E, 0x74, 0x2F, 0x4B, 0x72, 0x69, 0x73, 0x74, 0x6F, 0x72, 0x79, 0x20, 0x43, 0x6C, 0x69, 0x65, 0x6E, 0x74] \<and>
   finalPath_download [0x2F, 0x61, 0x2F, 0x78, 0x4B, 0x72, 0x69, 0x73, 0x74, 0x6F, 0x72, 0x79, 0x20, 0x43, 0x6C, 0x69, 0x65, 0x6E, 0x74]
     = [0x2F, 0x61, 0x2F, 0x78, 0x4B, 0x72, 0x69, 0x73, 0x74, 0x6F, 0x72, 0x79, 0x20, 0x43, 0x6C, 0x69, 0x65, 0x6E, 0x74] \<and>
   finalPath_download [0x2F, 0x61, 0x2F, 0x78, 0x4B, 0x72, 0x69, 0x73, 0x74, 0x6F, 0x72, 0x79, 0x20, 0x43, 0x6C, 0x69, 0x65, 0x6E, 0x74]
     \<noteq> finalPath_settings [0x2F, 0x61, 0x2F, 0x78, 0x4B, 0x72, 0x69, 0x73, 0x74, 0x6F, 0x72, 0x79, 0x20, 0x43, 0x6C, 0x69, 0x65, 0x6E, 0x74] \<and>
   finalPath_settings [0x2F, 0x61, 0x2F, 0x4B, 0x72, 0x69, 0x73, 0x74, 0x6F, 0x72, 0x79, 0x20, 0x43, 0x6C, 0x69, 0x65, 0x6E, 0x74, 0x2F]
     = [0x2F, 0x61, 0x2F, 0x4B, 0x72, 0x69, 0x73, 0x74, 0x6F, 0x72, 0x79, 0x20, 0x43, 0x6C, 0x69, 0x65, 0x6E, 0x74, 0x2F] \<and>
   finalPath_download [0x2F, 0x61, 0x2F, 0x4B, 0x72, 0x69, 0x73, 0x74, 0x6F, 0x72, 0x79, 0x20, 0x43, 0x6C, 0x69, 0x65, 0x6E, 0x74, 0x2F]
     = [0x2F, 0x61, 0x2F, 0x4B, 0x72, 0x69, 0x73, 0x74, 0x6F, 0x72, 0x79, 0x20, 0x43, 0x6C, 0x69, 0x65, 0x6E, 0x74]"
  by (simp add: finalPath_download_def finalPath_settings_def Let_def test_kristory_client_def test_component_def name_then_boundary_def strip_trailing_seps_def is_sep_def backslash_def slash_def canonicalize_def endsWith_def str_Kristory_Client_def str_kristory_client_def no_trailing_sep_def)

text \<open>
  On a path that ends in a separator and has no name component,
  \<open>handleSelectGameDirectory\<close> strips the separator and then appends the name with
  no separator, because the separator it appends is chosen from the path before the
  stripping. The result of the second application differs from the first.
\<close>

lemma finalPath_settings_trailing_separator:
  "finalPath_settings [0x43, 0x3A, 0x5C, 0x47, 0x61, 0x6D, 0x65, 0x73, 0x5C]
     = [0x43, 0x3A, 0x5C, 0x47, 0x61, 0x6D, 0x65, 0x73, 0x4B, 0x72, 0x69, 0x73, 0x74, 0x6F, 0x72, 0x79, 0x20, 0x43, 0x6C, 0x69, 0x65, 0x6E, 0x74] \<and>
   finalPath_download [0x43, 0x3A, 0x5C, 0x47, 0x61, 0x6D, 0x65, 0x73, 0x5C]
     = [0x43, 0x3A, 0x5C, 0x47, 0x61, 0x6D, 0x65, 0x73, 0x5C, 0x4B, 0x72, 0x69, 0x73, 0x74, 0x6F, 0x72, 0x79, 0x20, 0x43, 0x6C, 0x69, 0x65, 0x6E, 0x74] \<and>
   finalPath_settings (finalPath_settings [0x43, 0x3A, 0x5C, 0x47, 0x61, 0x6D, 0x65, 0x73, 0x5C])
     \<noteq> finalPath_settings [0x43, 0x3A, 0x5C, 0x47, 0x61, 0x6D, 0x65, 0x73, 0x5C]"
  by (simp add: finalPath_download_def finalPath_settings_def Let_def test_kristory_client_def test_component_def name_then_boundary_def strip_trailing_seps_def is_sep_def backslash_def slash_def canonicalize_def endsWith_def str_Kristory_Client_def str_kristory_client_def no_trailing_sep_def)

end
